theory Spec2Isabelle
  imports Complex_Main "HOL-Library.Word"
begin

section \<open>JavaScript strings\<close>

text \<open>
  A JavaScript string is a sequence of UTF-16 code units; \<open>.length\<close>, \<open>.slice\<close>,
  \<open>.trim\<close> and a regular expression without the \<open>u\<close> flag all work on code units.
  String literals of the source are ASCII and are written through \<open>ustr\<close>.
\<close>

type_synonym cu = "16 word"
type_synonym jsstring = "cu list"

definition ustr :: "string \<Rightarrow> jsstring" where
  "ustr cs = map of_char cs"

text \<open>
  The characters that \<open>String.prototype.trim\<close> strips and that \<open>\s\<close> matches:
  ECMAScript's WhiteSpace and LineTerminator productions.
\<close>

definition is_space :: "cu \<Rightarrow> bool" where
  "is_space c \<longleftrightarrow>
     c = 0x09 \<or> c = 0x0A \<or> c = 0x0B \<or> c = 0x0C \<or> c = 0x0D \<or> c = 0x20 \<or> c = 0xA0 \<or>
     c = 0x1680 \<or> (0x2000 \<le> c \<and> c \<le> 0x200A) \<or> c = 0x2028 \<or> c = 0x2029 \<or>
     c = 0x202F \<or> c = 0x205F \<or> c = 0x3000 \<or> c = 0xFEFF"

text \<open>\<open>.\<close> without the \<open>s\<close> flag matches everything but a LineTerminator.\<close>

definition is_line_terminator :: "cu \<Rightarrow> bool" where
  "is_line_terminator c \<longleftrightarrow> c = 0x0A \<or> c = 0x0D \<or> c = 0x2028 \<or> c = 0x2029"

definition is_digit :: "cu \<Rightarrow> bool" where
  "is_digit c \<longleftrightarrow> 0x30 \<le> c \<and> c \<le> 0x39"

definition is_upper :: "cu \<Rightarrow> bool" where
  "is_upper c \<longleftrightarrow> 0x41 \<le> c \<and> c \<le> 0x5A"

definition is_lower :: "cu \<Rightarrow> bool" where
  "is_lower c \<longleftrightarrow> 0x61 \<le> c \<and> c \<le> 0x7A"

definition is_letter :: "cu \<Rightarrow> bool" where
  "is_letter c \<longleftrightarrow> is_lower c \<or> is_upper c"

text \<open>The word characters of \<open>\b\<close>: \<open>[A-Za-z0-9_]\<close>.\<close>

definition is_word_char :: "cu \<Rightarrow> bool" where
  "is_word_char c \<longleftrightarrow> is_letter c \<or> is_digit c \<or> c = 0x5F"

definition trim :: "jsstring \<Rightarrow> jsstring" where
  "trim s = rev (dropWhile is_space (rev (dropWhile is_space s)))"

text \<open>Decimal rendering of a natural number, as a template literal renders it.\<close>

function nat_to_string :: "nat \<Rightarrow> jsstring" where
  "nat_to_string n =
     (if n < 10 then [of_nat (48 + n)]
      else nat_to_string (n div 10) @ [of_nat (48 + n mod 10)])"
  by pat_completeness auto
termination
  by (relation "measure id") auto

declare nat_to_string.simps [simp del]

section \<open>Regular expressions\<close>

text \<open>
  The fragment of ECMAScript regular expressions that the two \<open>nextStepsPattern\<close>
  literals use: character classes, literal text, sequence, alternation, the greedy
  quantifiers \<open>*\<close>, \<open>+\<close> and \<open>?\<close>, and the assertions \<open>^\<close>, \<open>$\<close> and \<open>\b\<close>.
  Neither literal has a flag, a capture that is read, a back-reference or a lookahead,
  so \<open>test\<close> depends only on whether some path through the pattern succeeds.

  A matcher state is the code unit before the current position (\<open>None\<close> at the start
  of the input) and the input that is left.
\<close>

datatype regex =
    Cls "cu \<Rightarrow> bool"
  | Lit jsstring
  | Seq regex regex
  | Alt regex regex
  | Star regex
  | Plus regex
  | Opt regex
  | Bol
  | Eol
  | WordB

type_synonym mstate = "cu option \<times> jsstring"

fun advance :: "mstate \<Rightarrow> jsstring \<Rightarrow> mstate" where
  "advance st [] = st"
| "advance (p, r) (c # cs) = advance (Some c, tl r) cs"

definition word_before :: "mstate \<Rightarrow> bool" where
  "word_before st = (case fst st of None \<Rightarrow> False | Some c \<Rightarrow> is_word_char c)"

definition word_after :: "mstate \<Rightarrow> bool" where
  "word_after st = (case snd st of [] \<Rightarrow> False | c # _ \<Rightarrow> is_word_char c)"

text \<open>
  The states reachable by iterating a matcher zero or more times. As in ECMAScript's
  RepeatMatcher, an iteration that consumes nothing is dropped.
\<close>

function star_iter :: "(mstate \<Rightarrow> mstate list) \<Rightarrow> mstate \<Rightarrow> mstate list" where
  "star_iter f st =
     st # concat (map (star_iter f)
                      (filter (\<lambda>st'. length (snd st') < length (snd st)) (f st)))"
  by pat_completeness auto
termination
  by (relation "measure (\<lambda>(f, st). length (snd st))") auto

declare star_iter.simps [simp del]

primrec ends :: "regex \<Rightarrow> mstate \<Rightarrow> mstate list" where
  "ends (Cls c) = (\<lambda>st. case snd st of [] \<Rightarrow> [] | x # xs \<Rightarrow> if c x then [(Some x, xs)] else [])"
| "ends (Lit w) = (\<lambda>st. if take (length w) (snd st) = w then [advance st w] else [])"
| "ends (Seq a b) = (\<lambda>st. concat (map (ends b) (ends a st)))"
| "ends (Alt a b) = (\<lambda>st. ends a st @ ends b st)"
| "ends (Star a) = star_iter (ends a)"
| "ends (Plus a) = (\<lambda>st. concat (map (star_iter (ends a)) (ends a st)))"
| "ends (Opt a) = (\<lambda>st. ends a st @ [st])"
| "ends Bol = (\<lambda>st. if fst st = None then [st] else [])"
| "ends Eol = (\<lambda>st. if snd st = [] then [st] else [])"
| "ends WordB = (\<lambda>st. if word_before st \<noteq> word_after st then [st] else [])"

text \<open>
  \<open>RegExp.prototype.test\<close> on a pattern without the \<open>g\<close> and \<open>y\<close> flags: the match
  is tried at every start position, from the left.
\<close>

fun search :: "regex \<Rightarrow> mstate \<Rightarrow> bool" where
  "search r (p, []) = (ends r (p, []) \<noteq> [])"
| "search r (p, c # cs) = (ends r (p, c # cs) \<noteq> [] \<or> search r (Some c, cs))"

definition regex_test :: "regex \<Rightarrow> jsstring \<Rightarrow> bool" where
  "regex_test r s = search r (None, s)"

fun seqs :: "regex list \<Rightarrow> regex" where
  "seqs [] = Lit []"
| "seqs [r] = r"
| "seqs (r # rs) = Seq r (seqs rs)"

fun alts :: "regex list \<Rightarrow> regex" where
  "alts [] = Cls (\<lambda>_. False)"
| "alts [r] = r"
| "alts (r # rs) = Alt r (alts rs)"

subsection \<open>The two next-steps patterns\<close>

definition action_verbs :: "string list" where
  "action_verbs =
    [''Gather'', ''Define'', ''Identify'', ''Review'', ''Assess'', ''Analyze'', ''Map'',
     ''Document'', ''Implement'', ''Automate'', ''Configure'', ''Create'', ''Set'',
     ''Establish'', ''Build'', ''Prototype'', ''Pilot'', ''Test'', ''Deploy'', ''Monitor'',
     ''Measure'', ''Train'', ''Communicate'', ''Schedule'', ''Prioritize'', ''Standardize'',
     ''Integrate'', ''Refine'', ''Update'', ''Validate'', ''Draft'', ''Run'', ''Enable'',
     ''Collect'', ''Clean'', ''Design'', ''Plan'', ''Decide'', ''Align'']"

text \<open>
  triage: \<^verbatim>\<open>/^(Gather|Define|...|Align)\b.*$/\<close>
\<close>

definition triage_nextStepsPattern :: regex where
  "triage_nextStepsPattern =
     seqs [Bol, alts (map (\<lambda>v. Lit (ustr v)) action_verbs), WordB,
           Star (Cls (\<lambda>c. \<not> is_line_terminator c)), Eol]"

text \<open>
  generatePlan: \<^verbatim>\<open>/^(?:\s*(?:\d+[\.\)\:\-]\s*|[-U+2022]\s*))?[A-Z][a-zA-Z]+\b.*$/\<close>
  (the second class holds the hyphen and the bullet character U+2022).
\<close>

definition is_numbering_sep :: "cu \<Rightarrow> bool" where
  "is_numbering_sep c \<longleftrightarrow> c = 0x2E \<or> c = 0x29 \<or> c = 0x3A \<or> c = 0x2D"

definition is_bullet :: "cu \<Rightarrow> bool" where
  "is_bullet c \<longleftrightarrow> c = 0x2D \<or> c = 0x2022"

definition plan_nextStepsPattern :: regex where
  "plan_nextStepsPattern =
     seqs [Bol,
           Opt (Seq (Star (Cls is_space))
                    (Alt (seqs [Plus (Cls is_digit), Cls is_numbering_sep, Star (Cls is_space)])
                         (Seq (Cls is_bullet) (Star (Cls is_space))))),
           Cls is_upper, Plus (Cls is_letter), WordB,
           Star (Cls (\<lambda>c. \<not> is_line_terminator c)), Eol]"


section \<open>JavaScript values\<close>

text \<open>
  The values that \<open>JSON.parse\<close> produces, with \<open>undefined\<close> for the result of reading
  a missing property. A number is an IEEE double: the finite ones are rationals (with
  \<open>-0\<close> identified with \<open>0\<close>, which \<open>===\<close>, \<open>>=\<close> and truthiness do not tell apart).
  An object is its own enumerable properties in enumeration order.
\<close>

datatype jsnum = NaN | PosInf | NegInf | Finite rat

datatype jsval =
    Undefined
  | Null
  | Bool bool
  | Num jsnum
  | Str jsstring
  | Arr "jsval list"
  | Obj "(jsstring \<times> jsval) list"

datatype jstype = T_undefined | T_object | T_boolean | T_number | T_string

fun typeof :: "jsval \<Rightarrow> jstype" where
  "typeof Undefined = T_undefined"
| "typeof Null = T_object"
| "typeof (Bool b) = T_boolean"
| "typeof (Num n) = T_number"
| "typeof (Str s) = T_string"
| "typeof (Arr xs) = T_object"
| "typeof (Obj kvs) = T_object"

fun truthy :: "jsval \<Rightarrow> bool" where
  "truthy Undefined = False"
| "truthy Null = False"
| "truthy (Bool b) = b"
| "truthy (Num n) = (n \<noteq> NaN \<and> n \<noteq> Finite 0)"
| "truthy (Str s) = (s \<noteq> [])"
| "truthy (Arr xs) = True"
| "truthy (Obj kvs) = True"

fun isArray :: "jsval \<Rightarrow> bool" where
  "isArray (Arr xs) = True"
| "isArray v = False"

text \<open>\<open>a >= b\<close> on numbers: false whenever an operand is NaN.\<close>

fun num_ge :: "jsnum \<Rightarrow> jsnum \<Rightarrow> bool" where
  "num_ge NaN b = False"
| "num_ge a NaN = False"
| "num_ge PosInf b = True"
| "num_ge a NegInf = True"
| "num_ge NegInf b = False"
| "num_ge a PosInf = False"
| "num_ge (Finite x) (Finite y) = (y \<le> x)"

text \<open>\<open>a || b\<close> on values that are already computed.\<close>

definition js_or :: "jsval \<Rightarrow> jsval \<Rightarrow> jsval" where
  "js_or a b = (if truthy a then a else b)"

subsection \<open>Exceptions\<close>

datatype exn = TypeError

definition and_then :: "exn + 'a \<Rightarrow> ('a \<Rightarrow> exn + 'b) \<Rightarrow> exn + 'b" where
  "and_then m f = (case m of Inl e \<Rightarrow> Inl e | Inr x \<Rightarrow> f x)"

text \<open>\<open>a || b\<close> where evaluating either operand may throw.\<close>

definition or_else :: "exn + jsval \<Rightarrow> exn + jsval \<Rightarrow> exn + jsval" where
  "or_else a b = and_then a (\<lambda>x. if truthy x then Inr x else b)"

text \<open>
  Property access. Reading a property of \<open>undefined\<close> or \<open>null\<close> throws a TypeError, as do
  \<open>Object.keys\<close> on them and the \<open>in\<close> operator on any primitive. Inherited members
  (of \<open>Object.prototype\<close>, \<open>Array.prototype\<close>, ...) are left out of \<open>has_property\<close>,
  \<open>get_prop\<close> and \<open>opt_get\<close>, and so are the own \<open>length\<close> and index properties of
  arrays and strings in the last two: the only names the source looks up are the six
  result keys, \<open>userMessage\<close>, \<open>input\<close>, \<open>status\<close> and \<open>message\<close>, and none of them is
  such a member.
\<close>

fun Object_keys :: "jsval \<Rightarrow> exn + jsstring list" where
  "Object_keys Undefined = Inl TypeError"
| "Object_keys Null = Inl TypeError"
| "Object_keys (Obj kvs) = Inr (map fst kvs)"
| "Object_keys (Arr xs) = Inr (map nat_to_string [0..<length xs])"
| "Object_keys (Str s) = Inr (map nat_to_string [0..<length s])"
| "Object_keys v = Inr []"

fun has_property :: "jsstring \<Rightarrow> jsval \<Rightarrow> exn + bool" where
  "has_property k (Obj kvs) = Inr (k \<in> set (map fst kvs))"
| "has_property k (Arr xs) = Inr (k \<in> set (map nat_to_string [0..<length xs]) \<or> k = ustr ''length'')"
| "has_property k v = Inl TypeError"

fun get_prop :: "jsval \<Rightarrow> jsstring \<Rightarrow> exn + jsval" where
  "get_prop Undefined k = Inl TypeError"
| "get_prop Null k = Inl TypeError"
| "get_prop (Obj kvs) k = Inr (case map_of kvs k of Some v \<Rightarrow> v | None \<Rightarrow> Undefined)"
| "get_prop v k = Inr Undefined"

text \<open>Optional chaining \<open>v?.k\<close>.\<close>

fun opt_get :: "jsval \<Rightarrow> jsstring \<Rightarrow> jsval" where
  "opt_get (Obj kvs) k = (case map_of kvs k of Some v \<Rightarrow> v | None \<Rightarrow> Undefined)"
| "opt_get v k = Undefined"

section \<open>The response validator\<close>

text \<open>
  \<open>validateTriageShape\<close> (triage) and \<open>validatePlanShape\<close> (generatePlan) are the same
  text except for the \<open>nextStepsPattern\<close> literal, which is the parameter of
  \<open>validateShape\<close>. The result is \<open>null\<close> or the error string.
\<close>

definition allowedKeys :: "jsstring list" where
  "allowedKeys = map ustr
     [''problem_statement'', ''clarifying_questions'', ''proposed_approach'',
      ''recommended_tools'', ''risks_and_privacy'', ''next_steps'']"

text \<open>The loop \<open>for (const item of arr)\<close> of \<open>checkArray\<close>.\<close>

fun check_items :: "jsstring \<Rightarrow> nat \<Rightarrow> regex option \<Rightarrow> jsval list \<Rightarrow> jsval" where
  "check_items field minLen pattern [] = Null"
| "check_items field minLen pattern (item # rest) =
     (case item of
        Str s \<Rightarrow>
          if length (trim s) < minLen
          then Str (field @ ustr '' items must be strings (minLength '' @ nat_to_string minLen @ ustr '').'')
          else if (case pattern of None \<Rightarrow> False | Some p \<Rightarrow> \<not> regex_test p s)
          then Str (field @ ustr '' items must match required pattern.'')
          else check_items field minLen pattern rest
      | _ \<Rightarrow> Str (field @ ustr '' items must be strings (minLength '' @ nat_to_string minLen @ ustr '').''))"

definition checkArray ::
    "jsval \<Rightarrow> jsstring \<Rightarrow> nat \<Rightarrow> nat \<Rightarrow> nat \<Rightarrow> regex option \<Rightarrow> exn + jsval" where
  "checkArray obj field minItems maxItems minLen pattern =
     and_then (get_prop obj field) (\<lambda>arr.
       case arr of
         Arr items \<Rightarrow>
           if length items < minItems \<or> length items > maxItems
           then Inr (Str (field @ ustr '' must have '' @ nat_to_string minItems @ ustr ''-'' @
                          nat_to_string maxItems @ ustr '' items.''))
           else Inr (check_items field minLen pattern items)
       | _ \<Rightarrow> Inr (Str (field @ ustr '' must be an array.'')))"

text \<open>The loop \<open>for (const k of allowedKeys) if (!(k in obj)) return ...\<close>.\<close>

fun first_missing :: "jsval \<Rightarrow> jsstring list \<Rightarrow> exn + jsstring option" where
  "first_missing obj [] = Inr None"
| "first_missing obj (k # ks) =
     and_then (has_property k obj) (\<lambda>present.
       if \<not> present then Inr (Some k) else first_missing obj ks)"

definition validateShape :: "regex \<Rightarrow> jsval \<Rightarrow> exn + jsval" where
  "validateShape nextStepsPattern obj =
     (if \<not> truthy obj \<or> typeof obj \<noteq> T_object \<or> isArray obj
      then Inr (Str (ustr ''Response is not an object.''))
      else and_then (Object_keys obj) (\<lambda>keys.
        case find (\<lambda>k. k \<notin> set allowedKeys) keys of
          Some k \<Rightarrow> Inr (Str (ustr ''Unexpected property: '' @ k))
        | None \<Rightarrow>
            and_then (first_missing obj allowedKeys) (\<lambda>missing.
              case missing of
                Some k \<Rightarrow> Inr (Str (ustr ''Missing required property: '' @ k))
              | None \<Rightarrow>
                  and_then (get_prop obj (ustr ''problem_statement'')) (\<lambda>ps.
                    if (case ps of Str s \<Rightarrow> length (trim s) < 10 | _ \<Rightarrow> True)
                    then Inr (Str (ustr ''problem_statement must be a string (minLength 10).''))
                    else
                      or_else (or_else (or_else (or_else
                        (checkArray obj (ustr ''clarifying_questions'') 3 5 5 None)
                        (checkArray obj (ustr ''proposed_approach'') 4 7 5 None))
                        (checkArray obj (ustr ''recommended_tools'') 1 10 2 None))
                        (checkArray obj (ustr ''risks_and_privacy'') 1 10 5 None))
                        (checkArray obj (ustr ''next_steps'') 4 7 3 (Some nextStepsPattern))))))"

definition validateTriageShape :: "jsval \<Rightarrow> exn + jsval" where
  "validateTriageShape = validateShape triage_nextStepsPattern"

definition validatePlanShape :: "jsval \<Rightarrow> exn + jsval" where
  "validatePlanShape = validateShape plan_nextStepsPattern"


section \<open>The request handlers\<close>

text \<open>
  The event that the function host passes to \<open>handler\<close>. \<open>headers\<close> and \<open>body\<close> may be
  missing (\<open>None\<close>); the local script under \<open>scripts/\<close> calls the handler without headers.
\<close>

record event =
  httpMethod :: jsstring
  headers :: "(jsstring \<times> jsstring) list option"
  body :: "jsstring option"
  isBase64Encoded :: bool

text \<open>
  \<open>process.env\<close>, and the module constant \<open>DEBUG_ERRORS\<close> that is computed from it
  when the module is loaded.
\<close>

record environment =
  OPENAI_API_KEY :: "jsstring option"
  OPENAI_MODEL :: "jsstring option"
  DEBUG_ERRORS :: bool

text \<open>
  What \<open>client.responses.create\<close> is called with (the JSON schema constant is left out),
  and how the provider stage ends: \<open>new OpenAI\<close>, the awaited call or the read of
  \<open>response.output_text\<close> throws a value, or \<open>output_text\<close> is read.
\<close>

record provider_request =
  req_apiKey :: jsstring
  req_model :: jsstring
  req_system :: jsstring
  req_user :: jsstring
  req_schema_name :: jsstring

datatype provider_outcome = Threw jsval | Output jsval

text \<open>
  The library functions the handler calls, as parameters: \<open>JSON.parse\<close> (\<open>None\<close> when it
  throws a SyntaxError), \<open>Buffer.from(b, "base64").toString("utf8")\<close>, \<open>String(v)\<close>, the
  Error object the engine creates for an exception it raises itself, and the provider.
\<close>

record platform =
  JSON_parse :: "jsstring \<Rightarrow> jsval option"
  base64_decode :: "jsstring \<Rightarrow> jsstring"
  to_String :: "jsval \<Rightarrow> jsstring"
  thrown_value :: "exn \<Rightarrow> jsval"
  responses_create :: "provider_request \<Rightarrow> provider_outcome"

text \<open>
  A response. \<open>JSON.stringify\<close> is not modelled: a body built by \<open>jsonResponse\<close> is
  represented by the value that is serialised.
\<close>

datatype body_text = Json jsval | Text jsstring

record response =
  statusCode :: nat
  resp_headers :: "(string \<times> string) list"
  resp_body :: body_text

record http_error =
  err_statusCode :: nat
  err_message :: jsstring

definition MAX_INPUT_CHARS :: nat where
  "MAX_INPUT_CHARS = 8000"

definition MAX_BODY_BYTES :: nat where
  "MAX_BODY_BYTES = 64 * 1024"

text \<open>
  \<open>Buffer.byteLength(s, "utf8")\<close>: a surrogate pair is one four-byte character, a lone
  surrogate is written as U+FFFD (three bytes).
\<close>

definition unit_bytes :: "cu \<Rightarrow> nat" where
  "unit_bytes c = (if c < 0x80 then 1 else if c < 0x800 then 2 else 3)"

fun byteLength :: "jsstring \<Rightarrow> nat" where
  "byteLength [] = 0"
| "byteLength [c] = unit_bytes c"
| "byteLength (c # d # cs) =
     (if 0xD800 \<le> c \<and> c \<le> 0xDBFF \<and> 0xDC00 \<le> d \<and> d \<le> 0xDFFF
      then 4 + byteLength cs
      else unit_bytes c + byteLength (d # cs))"

definition getRequestId :: "event \<Rightarrow> jsval" where
  "getRequestId ev =
     (let h = (case headers ev of None \<Rightarrow> [] | Some hs \<Rightarrow> hs);
          get = (\<lambda>name. case map_of h (ustr name) of None \<Rightarrow> Undefined | Some v \<Rightarrow> Str v)
      in js_or (js_or (js_or (js_or (get ''x-nf-request-id'') (get ''X-Nf-Request-Id''))
                             (get ''x-request-id'')) (get ''X-Request-Id'')) Null)"

definition cors_headers :: "(string \<times> string) list" where
  "cors_headers =
     [(''access-control-allow-origin'', ''*''),
      (''access-control-allow-headers'', ''content-type''),
      (''access-control-allow-methods'', ''POST, OPTIONS'')]"

definition jsonResponse :: "nat \<Rightarrow> jsval \<Rightarrow> response" where
  "jsonResponse code bodyObj =
     \<lparr>statusCode = code,
      resp_headers = (''content-type'', ''application/json; charset=utf-8'') # cors_headers,
      resp_body = Json bodyObj\<rparr>"

definition safeJsonParse :: "platform \<Rightarrow> jsstring \<Rightarrow> jsval option" where
  "safeJsonParse P text = JSON_parse P text"

definition toHttpError :: "jsval \<Rightarrow> http_error" where
  "toHttpError err =
     (let status = (case opt_get err (ustr ''status'') of Num n \<Rightarrow> Some n | _ \<Rightarrow> None)
      in if status = Some (Finite 401) \<or> status = Some (Finite 403)
         then \<lparr>err_statusCode = 502, err_message = ustr ''LLM authentication failed.''\<rparr>
         else if status = Some (Finite 429)
         then \<lparr>err_statusCode = 429,
               err_message = ustr ''Rate limited by LLM provider. Try again shortly.''\<rparr>
         else if (case status of None \<Rightarrow> False
                  | Some n \<Rightarrow> truthy (Num n) \<and> num_ge n (Finite 500))
         then \<lparr>err_statusCode = 502, err_message = ustr ''LLM provider error. Try again shortly.''\<rparr>
         else \<lparr>err_statusCode = 502, err_message = ustr ''LLM request failed.''\<rparr>)"

text \<open>
  The two handlers are the same text except for the name of the text field, the prompt
  wording, the schema name and the validator; these are the fields of an \<open>endpoint\<close>.
\<close>

record endpoint =
  field_name :: string
  system_prompt :: string
  user_heading :: string
  schema_name :: string
  nextStepsPattern :: regex

definition triage :: endpoint where
  "triage =
     \<lparr>field_name = ''userMessage'',
      system_prompt =
        ''You are an assistant that produces structured JSON for ticket triage. '' @
        ''Return ONLY valid JSON matching the provided schema. Do not wrap in markdown. '' @
        ''Do not include the schema keys as literal text inside any string values. '' @
        ''The next_steps array must contain 4-7 items, and each item must start with an action verb (e.g., Gather, Define, Implement, Review).'',
      user_heading = ''User message to triage:'',
      schema_name = ''triage_response'',
      nextStepsPattern = triage_nextStepsPattern\<rparr>"

definition generatePlan :: endpoint where
  "generatePlan =
     \<lparr>field_name = ''input'',
      system_prompt =
        ''You are an AI Office Hours Helper. '' @
        ''Given a workflow problem, produce a concise, practical plan. '' @
        ''Return ONLY valid JSON matching the provided schema. Do not wrap in markdown. '' @
        ''Do not include the schema keys as literal text inside any string values. '' @
        ''The next_steps array must contain 4-7 items, and each item must start with an action verb (no numbering or bullet prefixes).'',
      user_heading = ''Workflow problem:'',
      schema_name = ''office_hours_plan'',
      nextStepsPattern = plan_nextStepsPattern\<rparr>"

text \<open>The \<open>catch (err)\<close> block around the provider stage.\<close>

definition catch_response :: "platform \<Rightarrow> environment \<Rightarrow> jsval \<Rightarrow> jsval \<Rightarrow> response" where
  "catch_response P env requestId err =
     (let httpErr = toHttpError err
      in jsonResponse (err_statusCode httpErr)
           (Obj ([(ustr ''error'', Str (err_message httpErr)), (ustr ''requestId'', requestId)] @
                 (if DEBUG_ERRORS env
                  then [(ustr ''details'',
                         js_or (opt_get err (ustr ''message'')) (Str (to_String P err)))]
                  else []))))"

text \<open>The \<open>try\<close> block from the point where the provider stage has ended.\<close>

definition after_provider ::
    "endpoint \<Rightarrow> platform \<Rightarrow> environment \<Rightarrow> jsval \<Rightarrow> provider_outcome \<Rightarrow> response" where
  "after_provider ep P env requestId outcome =
     (case outcome of
        Threw err \<Rightarrow> catch_response P env requestId err
      | Output text \<Rightarrow>
          (case text of
             Str t \<Rightarrow>
               if t = []
               then jsonResponse 502
                      (Obj [(ustr ''error'', Str (ustr ''No text output received from model.'')),
                            (ustr ''requestId'', requestId)])
               else
                 (case safeJsonParse P t of
                    None \<Rightarrow>
                      jsonResponse 502
                        (Obj ([(ustr ''error'', Str (ustr ''Model returned non-JSON output.'')),
                               (ustr ''requestId'', requestId)] @
                              (if DEBUG_ERRORS env
                               then [(ustr ''model_output'', Str (take 2000 t))] else [])))
                  | Some parsed \<Rightarrow>
                      (case validateShape (nextStepsPattern ep) parsed of
                         Inl e \<Rightarrow> catch_response P env requestId (thrown_value P e)
                       | Inr shapeError \<Rightarrow>
                           if truthy shapeError
                           then jsonResponse 502
                                  (Obj ([(ustr ''error'',
                                          Str (ustr ''Model returned an invalid response shape.'')),
                                         (ustr ''requestId'', requestId)] @
                                        (if DEBUG_ERRORS env
                                         then [(ustr ''details'', shapeError),
                                               (ustr ''model_output'', Str (take 2000 t))]
                                         else [])))
                           else jsonResponse 200 parsed))
           | _ \<Rightarrow>
               jsonResponse 502
                 (Obj [(ustr ''error'', Str (ustr ''No text output received from model.'')),
                       (ustr ''requestId'', requestId)])))"

text \<open>The arguments of \<open>client.responses.create\<close>, with the client's API key.\<close>

definition build_request :: "endpoint \<Rightarrow> environment \<Rightarrow> jsstring \<Rightarrow> jsstring \<Rightarrow> provider_request" where
  "build_request ep env apiKey userMessage =
     \<lparr>req_apiKey = apiKey,
      req_model = (case OPENAI_MODEL env of
                     None \<Rightarrow> ustr ''gpt-4o-mini''
                   | Some m \<Rightarrow> if m = [] then ustr ''gpt-4o-mini'' else m),
      req_system = ustr (system_prompt ep),
      req_user = ustr (user_heading ep) @ [0x0A] @ userMessage @ [0x0A, 0x0A] @
                 ustr ''Generate a response that matches the JSON schema exactly.'',
      req_schema_name = ustr (schema_name ep)\<rparr>"

text \<open>
  \<open>handler\<close>. The result is the response together with the calls made to the provider,
  or the exception that leaves the handler.
\<close>

definition handler ::
    "endpoint \<Rightarrow> platform \<Rightarrow> environment \<Rightarrow> event \<Rightarrow> exn + response \<times> provider_request list" where
  "handler ep P env ev =
     (if httpMethod ev = ustr ''OPTIONS''
      then Inr (\<lparr>statusCode = 204, resp_headers = cors_headers, resp_body = Text []\<rparr>, [])
      else if httpMethod ev \<noteq> ustr ''POST''
      then Inr (jsonResponse 405
                  (Obj [(ustr ''error'', Str (ustr ''Method not allowed. Use POST.''))]), [])
      else
        (case OPENAI_API_KEY env of
           None \<Rightarrow>
             Inr (jsonResponse 500
                    (Obj [(ustr ''error'',
                           Str (ustr ''Missing OPENAI_API_KEY environment variable.''))]), [])
         | Some apiKey \<Rightarrow>
             if apiKey = []
             then Inr (jsonResponse 500
                         (Obj [(ustr ''error'',
                                Str (ustr ''Missing OPENAI_API_KEY environment variable.''))]), [])
             else
               (let requestId = getRequestId ev;
                    raw = (case body ev of None \<Rightarrow> [] | Some b \<Rightarrow> b)
                in if raw \<noteq> [] \<and> byteLength raw > MAX_BODY_BYTES
                   then Inr (jsonResponse 413
                               (Obj [(ustr ''error'', Str (ustr ''Request body too large.'')),
                                     (ustr ''requestId'', requestId)]), [])
                   else
                     (let bodyText = (if isBase64Encoded ev then base64_decode P raw else raw)
                      in case safeJsonParse P (if bodyText \<noteq> [] then bodyText else ustr ''{}'') of
                           None \<Rightarrow>
                             Inr (jsonResponse 400
                                    (Obj [(ustr ''error'', Str (ustr ''Invalid JSON body.'')),
                                          (ustr ''requestId'', requestId)]), [])
                         | Some parsed \<Rightarrow>
                             (let payload = (if truthy parsed then parsed else Obj [])
                              in and_then (get_prop payload (ustr (field_name ep))) (\<lambda>field.
                                   let userMessage = (case field of Str s \<Rightarrow> s | _ \<Rightarrow> [])
                                   in if trim userMessage = []
                                      then Inr (jsonResponse 400
                                                  (Obj [(ustr ''error'',
                                                         Str (ustr ''Missing required field: '' @
                                                              ustr (field_name ep))),
                                                        (ustr ''requestId'', requestId)]), [])
                                      else if length userMessage > MAX_INPUT_CHARS
                                      then Inr (jsonResponse 400
                                                  (Obj [(ustr ''error'',
                                                         Str (ustr ''Input is too long. Please keep it under '' @
                                                              nat_to_string MAX_INPUT_CHARS @
                                                              ustr '' characters.'')),
                                                        (ustr ''requestId'', requestId)]), [])
                                      else
                                        (let request = build_request ep env apiKey userMessage
                                         in Inr (after_provider ep P env requestId
                                                   (responses_create P request), [request]))))))))"

section \<open>Notions used to state the properties\<close>

subsection \<open>Shapes of next-steps items\<close>

text \<open>
  A capitalized word is an uppercase letter followed by at least one more letter. A
  numbering prefix is optional white space, digits, one of \<open>. ) : -\<close> and optional white
  space; a bullet prefix has a hyphen or a bullet in place of the number.
\<close>

definition capitalized_word :: "jsstring \<Rightarrow> bool" where
  "capitalized_word w =
     (case w of [] \<Rightarrow> False | c # cs \<Rightarrow> is_upper c \<and> cs \<noteq> [] \<and> list_all is_letter cs)"

definition numbering_prefix :: "jsstring \<Rightarrow> bool" where
  "numbering_prefix pre \<longleftrightarrow>
     (\<exists>ws ds sep ws2. pre = ws @ ds @ sep # ws2 \<and> list_all is_space ws \<and> ds \<noteq> [] \<and>
        list_all is_digit ds \<and> is_numbering_sep sep \<and> list_all is_space ws2)"

definition bullet_prefix :: "jsstring \<Rightarrow> bool" where
  "bullet_prefix pre \<longleftrightarrow>
     (\<exists>ws b ws2. pre = ws @ b # ws2 \<and> list_all is_space ws \<and> is_bullet b \<and>
        list_all is_space ws2)"

text \<open>The word ends here: what follows does not start with a word character.\<close>

definition no_word_char_next :: "jsstring \<Rightarrow> bool" where
  "no_word_char_next r = (case r of [] \<Rightarrow> True | c # _ \<Rightarrow> \<not> is_word_char c)"

definition single_line :: "jsstring \<Rightarrow> bool" where
  "single_line r = list_all (\<lambda>c. \<not> is_line_terminator c) r"

text \<open>The items of the \<open>next_steps\<close> array of a value.\<close>

definition next_steps_of :: "jsval \<Rightarrow> jsval list" where
  "next_steps_of v = (case opt_get v (ustr ''next_steps'') of Arr items \<Rightarrow> items | _ \<Rightarrow> [])"

subsection \<open>The result object as the specification describes it\<close>

definition string_min :: "nat \<Rightarrow> jsval \<Rightarrow> bool" where
  "string_min n v = (case v of Str s \<Rightarrow> n \<le> length (trim s) | _ \<Rightarrow> False)"

definition strings_array :: "nat \<Rightarrow> nat \<Rightarrow> nat \<Rightarrow> jsval \<Rightarrow> bool" where
  "strings_array lo hi n v =
     (case v of
        Arr items \<Rightarrow> lo \<le> length items \<and> length items \<le> hi \<and> list_all (string_min n) items
      | _ \<Rightarrow> False)"

definition items_match :: "regex \<Rightarrow> jsval \<Rightarrow> bool" where
  "items_match p v =
     (case v of
        Arr items \<Rightarrow> list_all (\<lambda>item. case item of Str s \<Rightarrow> regex_test p s | _ \<Rightarrow> False) items
      | _ \<Rightarrow> False)"

definition spec_result :: "regex \<Rightarrow> jsval \<Rightarrow> bool" where
  "spec_result p v =
     (case v of
        Obj kvs \<Rightarrow>
          set (map fst kvs) = set allowedKeys \<and>
          string_min 10 (opt_get v (ustr ''problem_statement'')) \<and>
          strings_array 3 5 5 (opt_get v (ustr ''clarifying_questions'')) \<and>
          strings_array 4 7 5 (opt_get v (ustr ''proposed_approach'')) \<and>
          strings_array 1 10 2 (opt_get v (ustr ''recommended_tools'')) \<and>
          strings_array 1 10 5 (opt_get v (ustr ''risks_and_privacy'')) \<and>
          strings_array 4 7 3 (opt_get v (ustr ''next_steps'')) \<and>
          items_match p (opt_get v (ustr ''next_steps''))
      | _ \<Rightarrow> False)"

subsection \<open>Auxiliary notions for the matcher\<close>

text \<open>The code unit before the position reached by consuming \<open>xs\<close>.\<close>

definition after :: "cu option \<Rightarrow> jsstring \<Rightarrow> cu option" where
  "after p xs = (if xs = [] then p else Some (last xs))"

text \<open>A pattern that consumes exactly the texts in \<open>M\<close>, whatever surrounds them.\<close>

definition consumes :: "regex \<Rightarrow> (jsstring \<Rightarrow> bool) \<Rightarrow> bool" where
  "consumes rx M \<longleftrightarrow>
     (\<forall>p r q r'. (q, r') \<in> set (ends rx (p, r)) \<longleftrightarrow>
        (\<exists>xs. r = xs @ r' \<and> q = after p xs \<and> M xs))"


subsection \<open>Requests and responses\<close>

text \<open>A validator verdict: \<open>null\<close> or a non-empty error string.\<close>

definition verdict :: "jsval \<Rightarrow> bool" where
  "verdict r \<longleftrightarrow> r = Null \<or> (\<exists>m. r = Str m \<and> m \<noteq> [])"

text \<open>The body exceeds the byte ceiling.\<close>

definition oversized :: "event \<Rightarrow> bool" where
  "oversized ev = (case body ev of None \<Rightarrow> False | Some b \<Rightarrow> byteLength b > MAX_BODY_BYTES)"

text \<open>The text handed to \<open>JSON.parse\<close>: the decoded body, or \<open>{}\<close> when that is empty.\<close>

definition json_source :: "platform \<Rightarrow> event \<Rightarrow> jsstring" where
  "json_source P ev =
     (let raw = (case body ev of None \<Rightarrow> [] | Some b \<Rightarrow> b);
          bodyText = (if isBase64Encoded ev then base64_decode P raw else raw)
      in if bodyText \<noteq> [] then bodyText else ustr ''{}'')"

text \<open>The designated text field of the parsed body.\<close>

definition designated_field :: "endpoint \<Rightarrow> jsval \<Rightarrow> jsval" where
  "designated_field ep parsed = opt_get parsed (ustr (field_name ep))"

text \<open>Absent, not a string, empty or white space only.\<close>

definition blank_field :: "jsval \<Rightarrow> bool" where
  "blank_field v = (case v of Str s \<Rightarrow> list_all is_space s | _ \<Rightarrow> True)"

text \<open>
  The request passes every check of the handler before the provider is called, with
  this API key and this text.
\<close>

definition reaches_provider ::
    "endpoint \<Rightarrow> platform \<Rightarrow> environment \<Rightarrow> event \<Rightarrow> jsstring \<Rightarrow> jsstring \<Rightarrow> bool" where
  "reaches_provider ep P env ev apiKey text \<longleftrightarrow>
     httpMethod ev = ustr ''POST'' \<and> OPENAI_API_KEY env = Some apiKey \<and> apiKey \<noteq> [] \<and>
     \<not> oversized ev \<and>
     (case JSON_parse P (json_source P ev) of
        None \<Rightarrow> False
      | Some parsed \<Rightarrow> designated_field ep parsed = Str text) \<and>
     \<not> list_all is_space text \<and> length text \<le> MAX_INPUT_CHARS"

text \<open>A field of a JSON body.\<close>

definition body_field :: "response \<Rightarrow> string \<Rightarrow> jsval option" where
  "body_field resp k =
     (case resp_body resp of Json (Obj kvs) \<Rightarrow> map_of kvs (ustr k) | _ \<Rightarrow> None)"

definition correlation_headers :: "string list" where
  "correlation_headers = [''x-nf-request-id'', ''X-Nf-Request-Id'', ''x-request-id'', ''X-Request-Id'']"

section \<open>Example inputs\<close>

text \<open>
  A request, the model output for it and the object that output denotes. The platform
  of the examples knows \<open>JSON.parse\<close> on the texts that occur in them; no example is
  base64-encoded.
\<close>

definition example_text :: jsstring where
  "example_text = ustr ''Our team triages hundreds of tickets by hand each week''"

definition example_body :: jsstring where
  \<open>example_body = ustr ''{"userMessage":"Our team triages hundreds of tickets by hand each week","input":"Our team triages hundreds of tickets by hand each week"}''\<close>

definition example_payload :: jsval where
  "example_payload = Obj [(ustr ''userMessage'', Str example_text), (ustr ''input'', Str example_text)]"

definition example_output :: jsstring where
  \<open>example_output = ustr (
     ''{"problem_statement":"Tickets are triaged by hand",'' @
     ''"clarifying_questions":["How many per week?","Which team owns them?","What tools are used?"],'' @
     ''"proposed_approach":["Collect samples","Label them","Build rules","Review weekly"],'' @
     ''"recommended_tools":["Jira"],'' @
     ''"risks_and_privacy":["Customer data in tickets"],'' @
     ''"next_steps":["Define the labels","Implement routing","Review results","Automate reports"]}'')\<close>

definition example_result :: jsval where
  "example_result = Obj
     [(ustr ''problem_statement'', Str (ustr ''Tickets are triaged by hand'')),
      (ustr ''clarifying_questions'',
         Arr [Str (ustr ''How many per week?''), Str (ustr ''Which team owns them?''),
              Str (ustr ''What tools are used?'')]),
      (ustr ''proposed_approach'',
         Arr [Str (ustr ''Collect samples''), Str (ustr ''Label them''),
              Str (ustr ''Build rules''), Str (ustr ''Review weekly'')]),
      (ustr ''recommended_tools'', Arr [Str (ustr ''Jira'')]),
      (ustr ''risks_and_privacy'', Arr [Str (ustr ''Customer data in tickets'')]),
      (ustr ''next_steps'',
         Arr [Str (ustr ''Define the labels''), Str (ustr ''Implement routing''),
              Str (ustr ''Review results''), Str (ustr ''Automate reports'')])]"

text \<open>A request whose text fields are blank, with another field beside them.\<close>

definition blank_body :: jsstring where
  \<open>blank_body = ustr ''{"userMessage":"   ","input":"","note":"kept"}''\<close>

definition blank_payload :: jsval where
  "blank_payload =
     Obj [(ustr ''userMessage'', Str (ustr ''   '')), (ustr ''input'', Str []),
          (ustr ''note'', Str (ustr ''kept''))]"

definition example_platform :: platform where
  "example_platform =
     \<lparr>JSON_parse = map_of [(example_body, example_payload),
                           (example_output, example_result),
                           (blank_body, blank_payload),
                           (ustr ''{}'', Obj [])],
      base64_decode = (\<lambda>b. []),
      to_String = (\<lambda>v. ustr ''[object Object]''),
      thrown_value = (\<lambda>e. Obj [(ustr ''message'', Str (ustr ''TypeError''))]),
      responses_create = (\<lambda>request. Output (Str example_output))\<rparr>"

definition example_env :: environment where
  "example_env = \<lparr>OPENAI_API_KEY = Some (ustr ''sk-test''), OPENAI_MODEL = None, DEBUG_ERRORS = False\<rparr>"

definition example_event :: event where
  "example_event =
     \<lparr>httpMethod = ustr ''POST'',
      headers = Some [(ustr ''x-request-id'', ustr ''req-42'')],
      body = Some example_body,
      isBase64Encoded = False\<rparr>"

text \<open>Requests whose text is \<open>n\<close> letters \<open>a\<close>, and a platform that parses them.\<close>

definition long_text :: "nat \<Rightarrow> jsstring" where
  "long_text n = replicate n 0x61"

definition long_body :: "nat \<Rightarrow> jsstring" where
  \<open>long_body n =
     ustr ''{"userMessage":"'' @ long_text n @ ustr ''","input":"'' @ long_text n @ ustr ''"}''\<close>

definition long_payload :: "nat \<Rightarrow> jsval" where
  "long_payload n = Obj [(ustr ''userMessage'', Str (long_text n)), (ustr ''input'', Str (long_text n))]"

definition long_event :: "nat \<Rightarrow> event" where
  "long_event n = example_event\<lparr>body := Some (long_body n)\<rparr>"

definition long_platform :: "nat \<Rightarrow> platform" where
  "long_platform n =
     example_platform\<lparr>JSON_parse :=
       (\<lambda>t. if t = long_body n then Some (long_payload n) else JSON_parse example_platform t)\<rparr>"

text \<open>Variations: no API key, debug mode, a provider that fails, a model that chats.\<close>

definition no_key_env :: environment where
  "no_key_env = example_env\<lparr>OPENAI_API_KEY := None\<rparr>"

definition debug_env :: environment where
  "debug_env = example_env\<lparr>DEBUG_ERRORS := True\<rparr>"

definition rate_limit_error :: jsval where
  "rate_limit_error =
     Obj [(ustr ''status'', Num (Finite 429)), (ustr ''message'', Str (ustr ''Too Many Requests''))]"

definition failing_platform :: platform where
  "failing_platform = example_platform\<lparr>responses_create := (\<lambda>request. Threw rate_limit_error)\<rparr>"

definition chat_output :: jsstring where
  "chat_output = ustr ''Sorry, I cannot help with that.''"

definition chatty_platform :: platform where
  "chatty_platform = example_platform\<lparr>responses_create := (\<lambda>request. Output (Str chat_output))\<rparr>"

text \<open>A request with several correlation headers, the first of them empty.\<close>

definition multi_header_event :: event where
  "multi_header_event =
     example_event\<lparr>headers := Some [(ustr ''x-nf-request-id'', []),
                                     (ustr ''X-Request-Id'', ustr ''b-2''),
                                     (ustr ''x-request-id'', ustr ''client-7'')],
                   body := Some blank_body\<rparr>"

subsection \<open>Error responses\<close>

text \<open>The error envelope with and without the correlation id, and the status of a result.\<close>

definition error_response :: "nat \<Rightarrow> jsstring \<Rightarrow> jsval \<Rightarrow> response" where
  "error_response code msg requestId =
     jsonResponse code (Obj [(ustr ''error'', Str msg), (ustr ''requestId'', requestId)])"

definition plain_error :: "nat \<Rightarrow> jsstring \<Rightarrow> response" where
  "plain_error code msg = jsonResponse code (Obj [(ustr ''error'', Str msg)])"

section \<open>The matcher\<close>

lemma after_Nil [simp]: "after p [] = p"
  by (simp add: after_def)

lemma after_Cons [simp]: "after p (x # xs) = after (Some x) xs"
  by (simp add: after_def)

lemma after_append [simp]: "after (after p xs) ys = after p (xs @ ys)"
  by (simp add: after_def)

lemma advance_eq: "advance (p, w @ r) w = (after p w, r)"
  by (induction w arbitrary: p) auto

lemma in_ends_Cls:
  "(q, r') \<in> set (ends (Cls c) (p, r)) \<longleftrightarrow> (\<exists>x. r = x # r' \<and> c x \<and> q = Some x)"
  by (cases r) auto

lemma take_eq_iff_append: "take (length w) r = w \<longleftrightarrow> (\<exists>r'. r = w @ r')"
  by (metis append_eq_conv_conj append_take_drop_id)

lemma in_ends_Lit:
  "(q, r') \<in> set (ends (Lit w) (p, r)) \<longleftrightarrow> (r = w @ r' \<and> q = after p w)"
  by (auto simp: take_eq_iff_append advance_eq)

lemma star_iter_Cls:
  "(q, r') \<in> set (star_iter (ends (Cls c)) (p, r)) \<longleftrightarrow>
     (\<exists>xs. r = xs @ r' \<and> list_all c xs \<and> q = after p xs)"
proof (induction r arbitrary: p)
  case Nil
  show ?case by (subst star_iter.simps) auto
next
  case (Cons x r0)
  have step: "set (star_iter (ends (Cls c)) (p, x # r0)) =
      insert (p, x # r0) (if c x then set (star_iter (ends (Cls c)) (Some x, r0)) else {})"
    by (subst star_iter.simps) simp
  show ?case
  proof
    assume "(q, r') \<in> set (star_iter (ends (Cls c)) (p, x # r0))"
    then consider "q = p" "r' = x # r0" | "c x" "(q, r') \<in> set (star_iter (ends (Cls c)) (Some x, r0))"
      unfolding step by (auto split: if_splits)
    then show "\<exists>xs. x # r0 = xs @ r' \<and> list_all c xs \<and> q = after p xs"
    proof cases
      case 1
      then have "x # r0 = [] @ r' \<and> list_all c [] \<and> q = after p []" by simp
      then show ?thesis by blast
    next
      case 2
      then obtain xs where "r0 = xs @ r'" "list_all c xs" "q = after (Some x) xs"
        using Cons.IH by blast
      then have "x # r0 = (x # xs) @ r' \<and> list_all c (x # xs) \<and> q = after p (x # xs)"
        using 2(1) by simp
      then show ?thesis by blast
    qed
  next
    assume "\<exists>xs. x # r0 = xs @ r' \<and> list_all c xs \<and> q = after p xs"
    then obtain xs where xs: "x # r0 = xs @ r'" "list_all c xs" "q = after p xs" by blast
    show "(q, r') \<in> set (star_iter (ends (Cls c)) (p, x # r0))"
    proof (cases xs)
      case Nil
      with xs show ?thesis unfolding step by simp
    next
      case (Cons y ys)
      with xs have "y = x" "r0 = ys @ r'" "c x" "list_all c ys" "q = after (Some x) ys" by auto
      then show ?thesis unfolding step using Cons.IH by auto
    qed
  qed
qed

lemma in_ends_Star_Cls:
  "(q, r') \<in> set (ends (Star (Cls c)) (p, r)) \<longleftrightarrow>
     (\<exists>xs. r = xs @ r' \<and> list_all c xs \<and> q = after p xs)"
  by (simp only: ends.simps(5)) (rule star_iter_Cls)

lemma in_ends_Plus_Cls:
  "(q, r') \<in> set (ends (Plus (Cls c)) (p, r)) \<longleftrightarrow>
     (\<exists>xs. xs \<noteq> [] \<and> r = xs @ r' \<and> list_all c xs \<and> q = after p xs)"
proof -
  have "(q, r') \<in> set (ends (Plus (Cls c)) (p, r)) \<longleftrightarrow>
        (\<exists>m \<in> set (ends (Cls c) (p, r)). (q, r') \<in> set (star_iter (ends (Cls c)) m))"
    unfolding ends.simps(6) by (auto simp del: ends.simps)
  also have "\<dots> \<longleftrightarrow> (\<exists>x r0. r = x # r0 \<and> c x \<and> (q, r') \<in> set (star_iter (ends (Cls c)) (Some x, r0)))"
    by (auto simp: in_ends_Cls simp del: ends.simps)
  also have "\<dots> \<longleftrightarrow> (\<exists>x r0 ys. r = x # r0 \<and> c x \<and> r0 = ys @ r' \<and> list_all c ys \<and> q = after (Some x) ys)"
    unfolding star_iter_Cls by blast
  also have "\<dots> \<longleftrightarrow> (\<exists>xs. xs \<noteq> [] \<and> r = xs @ r' \<and> list_all c xs \<and> q = after p xs)"
  proof
    assume "\<exists>x r0 ys. r = x # r0 \<and> c x \<and> r0 = ys @ r' \<and> list_all c ys \<and> q = after (Some x) ys"
    then obtain x ys where "r = (x # ys) @ r'" "list_all c (x # ys)" "q = after p (x # ys)"
      by auto
    then show "\<exists>xs. xs \<noteq> [] \<and> r = xs @ r' \<and> list_all c xs \<and> q = after p xs"
      by (intro exI [of _ "x # ys"]) simp
  next
    assume "\<exists>xs. xs \<noteq> [] \<and> r = xs @ r' \<and> list_all c xs \<and> q = after p xs"
    then obtain xs where xs: "xs \<noteq> []" "r = xs @ r'" "list_all c xs" "q = after p xs" by blast
    then obtain x ys where "xs = x # ys" by (cases xs) auto
    with xs show "\<exists>x r0 ys. r = x # r0 \<and> c x \<and> r0 = ys @ r' \<and> list_all c ys \<and> q = after (Some x) ys"
      by auto
  qed
  finally show ?thesis .
qed

lemma in_ends_Seq:
  "st' \<in> set (ends (Seq a b) st) \<longleftrightarrow> (\<exists>m \<in> set (ends a st). st' \<in> set (ends b m))"
  by auto

lemma in_ends_alts:
  "st' \<in> set (ends (alts rs) st) \<longleftrightarrow> (\<exists>r \<in> set rs. st' \<in> set (ends r st))"
  by (induction rs rule: alts.induct) auto

lemma search_Bol: "p \<noteq> None \<Longrightarrow> \<not> search (Seq Bol r) (p, s)"
  by (induction s arbitrary: p) auto

lemma regex_test_Bol:
  "regex_test (Seq Bol r) s \<longleftrightarrow> ends r (None, s) \<noteq> []"
  by (cases s) (auto simp: regex_test_def search_Bol)

subsection \<open>What the two patterns accept\<close>

lemma ends_nonempty_iff: "ends r st \<noteq> [] \<longleftrightarrow> (\<exists>st'. st' \<in> set (ends r st))"
  by (cases "ends r st") auto

lemma ends_Seq_nonempty:
  "ends (Seq a b) st \<noteq> [] \<longleftrightarrow> (\<exists>q r'. (q, r') \<in> set (ends a st) \<and> ends b (q, r') \<noteq> [])"
  by auto

lemma ends_Eol_nonempty: "ends Eol (p, r) \<noteq> [] \<longleftrightarrow> r = []"
  by simp

lemma in_ends_WordB:
  "(q, r') \<in> set (ends WordB (p, r)) \<longleftrightarrow> q = p \<and> r' = r \<and> word_before (p, r) \<noteq> word_after (p, r)"
  by auto

lemma word_after_eq: "word_after (p, r) \<longleftrightarrow> \<not> no_word_char_next r"
  by (simp add: word_after_def no_word_char_next_def split: list.splits)

lemma line_tail:
  "ends (Seq WordB (Seq (Star (Cls (\<lambda>c. \<not> is_line_terminator c))) Eol)) (p, r) \<noteq> [] \<longleftrightarrow>
     word_before (p, r) \<noteq> word_after (p, r) \<and> single_line r"
proof -
  let ?dot = "Cls (\<lambda>c. \<not> is_line_terminator c)"
  have "ends (Seq (Star ?dot) Eol) (p, r) \<noteq> [] \<longleftrightarrow>
        (\<exists>q r'. (q, r') \<in> set (ends (Star ?dot) (p, r)) \<and> r' = [])"
    unfolding ends_Seq_nonempty ends_Eol_nonempty by blast
  also have "\<dots> \<longleftrightarrow> single_line r"
    unfolding in_ends_Star_Cls single_line_def by auto
  finally have star: "ends (Seq (Star ?dot) Eol) (p, r) \<noteq> [] \<longleftrightarrow> single_line r" .
  have "ends (Seq WordB (Seq (Star ?dot) Eol)) (p, r) \<noteq> [] \<longleftrightarrow>
        word_before (p, r) \<noteq> word_after (p, r) \<and> ends (Seq (Star ?dot) Eol) (p, r) \<noteq> []"
    unfolding ends_Seq_nonempty [of WordB] in_ends_WordB by blast
  then show ?thesis using star by simp
qed

lemma word_before_after: "xs \<noteq> [] \<Longrightarrow> word_before (after p xs, r) = is_word_char (last xs)"
  by (simp add: word_before_def after_def)

lemma triage_pattern_iff:
  "regex_test triage_nextStepsPattern s \<longleftrightarrow>
     (\<exists>v \<in> set action_verbs. \<exists>rest. s = ustr v @ rest \<and> no_word_char_next rest \<and> single_line rest)"
proof -
  let ?tail = "Seq WordB (Seq (Star (Cls (\<lambda>c. \<not> is_line_terminator c))) Eol)"
  let ?verbs = "alts (map (\<lambda>v. Lit (ustr v)) action_verbs)"
  have verbs_word: "\<forall>v \<in> set action_verbs. ustr v \<noteq> [] \<and> is_word_char (last (ustr v))"
    by (simp add: action_verbs_def ustr_def is_word_char_def is_letter_def is_lower_def)
  have "regex_test triage_nextStepsPattern s \<longleftrightarrow> ends (Seq ?verbs ?tail) (None, s) \<noteq> []"
    unfolding triage_nextStepsPattern_def seqs.simps by (rule regex_test_Bol)
  also have "\<dots> \<longleftrightarrow> (\<exists>q r'. (q, r') \<in> set (ends ?verbs (None, s)) \<and> ends ?tail (q, r') \<noteq> [])"
    unfolding ends_Seq_nonempty [of ?verbs] by blast
  also have "\<dots> \<longleftrightarrow> (\<exists>v \<in> set action_verbs. \<exists>rest. s = ustr v @ rest \<and>
        ends ?tail (after None (ustr v), rest) \<noteq> [])"
    unfolding in_ends_alts by (auto simp: in_ends_Lit simp del: ends.simps)
  also have "\<dots> \<longleftrightarrow> (\<exists>v \<in> set action_verbs. \<exists>rest. s = ustr v @ rest \<and>
        no_word_char_next rest \<and> single_line rest)"
    unfolding line_tail using verbs_word by (auto simp: word_before_after word_after_eq)
  finally show ?thesis .
qed

lemma in_ends_Alt:
  "st' \<in> set (ends (Alt a b) st) \<longleftrightarrow> st' \<in> set (ends a st) \<or> st' \<in> set (ends b st)"
  by simp

lemma in_ends_Opt:
  "st' \<in> set (ends (Opt a) st) \<longleftrightarrow> st' \<in> set (ends a st) \<or> st' = st"
  by auto

lemma in_ends_Seq_pair:
  "(q, r') \<in> set (ends (Seq a b) st) \<longleftrightarrow>
     (\<exists>q1 r1. (q1, r1) \<in> set (ends a st) \<and> (q, r') \<in> set (ends b (q1, r1)))"
  by auto

lemma consumesD:
  "consumes rx M \<Longrightarrow> (q, r') \<in> set (ends rx (p, r)) \<longleftrightarrow> (\<exists>xs. r = xs @ r' \<and> q = after p xs \<and> M xs)"
  unfolding consumes_def by blast

lemma consumes_Cls: "consumes (Cls c) (\<lambda>xs. \<exists>x. xs = [x] \<and> c x)"
  unfolding consumes_def in_ends_Cls by auto

lemma consumes_Lit: "consumes (Lit w) (\<lambda>xs. xs = w)"
  unfolding consumes_def in_ends_Lit by auto

lemma consumes_Star_Cls: "consumes (Star (Cls c)) (list_all c)"
  unfolding consumes_def in_ends_Star_Cls by auto

lemma consumes_Plus_Cls: "consumes (Plus (Cls c)) (\<lambda>xs. xs \<noteq> [] \<and> list_all c xs)"
  unfolding consumes_def in_ends_Plus_Cls by auto

lemma consumes_Seq:
  assumes a: "consumes a Ma" and b: "consumes b Mb"
  shows "consumes (Seq a b) (\<lambda>xs. \<exists>ys zs. xs = ys @ zs \<and> Ma ys \<and> Mb zs)"
  unfolding consumes_def
proof (intro allI iffI)
  fix p r q r'
  assume "(q, r') \<in> set (ends (Seq a b) (p, r))"
  then obtain q1 r1 where 1: "(q1, r1) \<in> set (ends a (p, r))" and 2: "(q, r') \<in> set (ends b (q1, r1))"
    unfolding in_ends_Seq_pair by blast
  from 1 obtain ys where ys: "r = ys @ r1" "q1 = after p ys" "Ma ys"
    using consumesD [OF a] by blast
  from 2 obtain zs where zs: "r1 = zs @ r'" "q = after q1 zs" "Mb zs"
    using consumesD [OF b] by blast
  have "r = (ys @ zs) @ r'" "q = after p (ys @ zs)"
    using ys zs by simp_all
  then show "\<exists>xs. r = xs @ r' \<and> q = after p xs \<and> (\<exists>ys zs. xs = ys @ zs \<and> Ma ys \<and> Mb zs)"
    using ys(3) zs(3) by blast
next
  fix p r q r'
  assume "\<exists>xs. r = xs @ r' \<and> q = after p xs \<and> (\<exists>ys zs. xs = ys @ zs \<and> Ma ys \<and> Mb zs)"
  then obtain ys zs where x: "r = (ys @ zs) @ r'" "q = after p (ys @ zs)" "Ma ys" "Mb zs"
    by blast
  have "(after p ys, zs @ r') \<in> set (ends a (p, r))"
    using consumesD [OF a] x(1,3) by auto
  moreover have "(q, r') \<in> set (ends b (after p ys, zs @ r'))"
    using consumesD [OF b, of q r' "after p ys" "zs @ r'"] x(2,4) by auto
  ultimately show "(q, r') \<in> set (ends (Seq a b) (p, r))"
    unfolding in_ends_Seq_pair by blast
qed

lemma consumes_Alt:
  assumes a: "consumes a Ma" and b: "consumes b Mb"
  shows "consumes (Alt a b) (\<lambda>xs. Ma xs \<or> Mb xs)"
  unfolding consumes_def
proof (intro allI)
  fix p r q r'
  show "(q, r') \<in> set (ends (Alt a b) (p, r)) \<longleftrightarrow>
      (\<exists>xs. r = xs @ r' \<and> q = after p xs \<and> (Ma xs \<or> Mb xs))"
    unfolding in_ends_Alt consumesD [OF a] consumesD [OF b] by blast
qed

lemma consumes_Opt:
  assumes "consumes a Ma" shows "consumes (Opt a) (\<lambda>xs. Ma xs \<or> xs = [])"
  unfolding consumes_def
proof (intro allI)
  fix p r q r'
  have "(q, r') = (p, r) \<longleftrightarrow> (\<exists>xs. r = xs @ r' \<and> q = after p xs \<and> xs = [])"
    by auto
  then show "(q, r') \<in> set (ends (Opt a) (p, r)) \<longleftrightarrow>
      (\<exists>xs. r = xs @ r' \<and> q = after p xs \<and> (Ma xs \<or> xs = []))"
    unfolding in_ends_Opt consumesD [OF assms] by blast
qed

lemma consumes_alts_Lit:
  "consumes (alts (map Lit ws)) (\<lambda>xs. xs \<in> set ws)"
  unfolding consumes_def in_ends_alts by (auto simp: in_ends_Lit simp del: ends.simps)

lemma consumes_then:
  assumes "consumes a Ma"
  shows "ends (Seq a rest) (p, r) \<noteq> [] \<longleftrightarrow>
           (\<exists>xs r1. r = xs @ r1 \<and> Ma xs \<and> ends rest (after p xs, r1) \<noteq> [])"
  unfolding ends_Seq_nonempty consumesD [OF assms] by blast

lemma consumes_cong:
  "consumes rx M \<Longrightarrow> (\<And>xs. M xs \<longleftrightarrow> M' xs) \<Longrightarrow> consumes rx M'"
  unfolding consumes_def by simp

lemma numbering_prefix_iff:
  "numbering_prefix xs \<longleftrightarrow>
    (\<exists>ys zs. xs = ys @ zs \<and> list_all is_space ys \<and>
       (\<exists>ys' zs'. zs = ys' @ zs' \<and> (ys' \<noteq> [] \<and> list_all is_digit ys') \<and>
           (\<exists>ys'' zs''. zs' = ys'' @ zs'' \<and> (\<exists>x. ys'' = [x] \<and> is_numbering_sep x) \<and>
              list_all is_space zs'')))"
  (is "?L \<longleftrightarrow> ?R")
proof
  assume ?L
  then obtain ws ds sep ws2 where n: "xs = ws @ ds @ sep # ws2" "list_all is_space ws" "ds \<noteq> []"
      "list_all is_digit ds" "is_numbering_sep sep" "list_all is_space ws2"
    unfolding numbering_prefix_def by blast
  have "xs = ws @ (ds @ [sep] @ ws2)" using n(1) by simp
  moreover have "\<exists>x. [sep] = [x] \<and> is_numbering_sep x" using n(5) by simp
  ultimately show ?R using n(2,3,4,6) by blast
next
  assume ?R
  then obtain ys ys' x zs'' where "xs = ys @ ys' @ [x] @ zs''" "list_all is_space ys" "ys' \<noteq> []"
      "list_all is_digit ys'" "is_numbering_sep x" "list_all is_space zs''"
    by blast
  then show ?L unfolding numbering_prefix_def by (intro exI [of _ ys] exI [of _ ys'] exI [of _ x] exI [of _ zs'']) simp
qed

lemma bullet_prefix_iff:
  "bullet_prefix xs \<longleftrightarrow>
    (\<exists>ys zs. xs = ys @ zs \<and> list_all is_space ys \<and>
       (\<exists>ys' zs'. zs = ys' @ zs' \<and> (\<exists>x. ys' = [x] \<and> is_bullet x) \<and> list_all is_space zs'))"
  (is "?L \<longleftrightarrow> ?R")
proof
  assume ?L
  then obtain ws b ws2 where n: "xs = ws @ b # ws2" "list_all is_space ws" "is_bullet b"
      "list_all is_space ws2"
    unfolding bullet_prefix_def by blast
  have "xs = ws @ ([b] @ ws2)" using n(1) by simp
  moreover have "\<exists>x. [b] = [x] \<and> is_bullet x" using n(3) by simp
  ultimately show ?R using n(2,4) by blast
next
  assume ?R
  then obtain ys x zs' where "xs = ys @ [x] @ zs'" "list_all is_space ys" "is_bullet x"
      "list_all is_space zs'"
    by blast
  then show ?L unfolding bullet_prefix_def by (intro exI [of _ ys] exI [of _ x] exI [of _ zs']) simp
qed

lemma ex_split_disj:
  "(\<exists>ys zs. xs = ys @ zs \<and> P ys \<and> (Q zs \<or> R zs)) \<longleftrightarrow>
     (\<exists>ys zs. xs = ys @ zs \<and> P ys \<and> Q zs) \<or> (\<exists>ys zs. xs = ys @ zs \<and> P ys \<and> R zs)"
  by blast

lemma consumes_plan_prefix:
  "consumes (Opt (Seq (Star (Cls is_space))
                    (Alt (seqs [Plus (Cls is_digit), Cls is_numbering_sep, Star (Cls is_space)])
                         (Seq (Cls is_bullet) (Star (Cls is_space))))))
     (\<lambda>xs. numbering_prefix xs \<or> bullet_prefix xs \<or> xs = [])"
proof (rule consumes_cong)
  show "consumes (Opt (Seq (Star (Cls is_space))
                    (Alt (seqs [Plus (Cls is_digit), Cls is_numbering_sep, Star (Cls is_space)])
                         (Seq (Cls is_bullet) (Star (Cls is_space))))))
    (\<lambda>xs. (\<exists>ys zs. xs = ys @ zs \<and> list_all is_space ys \<and>
       ((\<exists>ys' zs'. zs = ys' @ zs' \<and> (ys' \<noteq> [] \<and> list_all is_digit ys') \<and>
           (\<exists>ys'' zs''. zs' = ys'' @ zs'' \<and> (\<exists>x. ys'' = [x] \<and> is_numbering_sep x) \<and> list_all is_space zs''))
        \<or> (\<exists>ys' zs'. zs = ys' @ zs' \<and> (\<exists>x. ys' = [x] \<and> is_bullet x) \<and> list_all is_space zs')))
      \<or> xs = [])"
    unfolding seqs.simps
    by (intro consumes_Opt consumes_Seq consumes_Alt consumes_Star_Cls consumes_Plus_Cls consumes_Cls)
next
  fix xs :: jsstring
  show "((\<exists>ys zs. xs = ys @ zs \<and> list_all is_space ys \<and>
       ((\<exists>ys' zs'. zs = ys' @ zs' \<and> (ys' \<noteq> [] \<and> list_all is_digit ys') \<and>
           (\<exists>ys'' zs''. zs' = ys'' @ zs'' \<and> (\<exists>x. ys'' = [x] \<and> is_numbering_sep x) \<and> list_all is_space zs''))
        \<or> (\<exists>ys' zs'. zs = ys' @ zs' \<and> (\<exists>x. ys' = [x] \<and> is_bullet x) \<and> list_all is_space zs')))
      \<or> xs = []) \<longleftrightarrow> (numbering_prefix xs \<or> bullet_prefix xs \<or> xs = [])"
    by (simp only: numbering_prefix_iff [of xs] bullet_prefix_iff [of xs] ex_split_disj [of xs] disj_assoc)
qed

lemma letters_last_word: "xs \<noteq> [] \<Longrightarrow> list_all is_letter xs \<Longrightarrow> is_word_char (last xs)"
  by (induction xs) (auto simp: is_word_char_def)

lemma word_tail:
  "ends (Seq (Cls is_upper) (Seq (Plus (Cls is_letter))
      (Seq WordB (Seq (Star (Cls (\<lambda>c. \<not> is_line_terminator c))) Eol)))) (p, r) \<noteq> [] \<longleftrightarrow>
   (\<exists>w rest. r = w @ rest \<and> capitalized_word w \<and> no_word_char_next rest \<and> single_line rest)"
  (is "?L \<longleftrightarrow> ?R")
proof -
  let ?tail = "Seq WordB (Seq (Star (Cls (\<lambda>c. \<not> is_line_terminator c))) Eol)"
  have tail: "ends ?tail (after q ys, r2) \<noteq> [] \<longleftrightarrow> no_word_char_next r2 \<and> single_line r2"
    if "ys \<noteq> []" "list_all is_letter ys" for q ys r2
    unfolding line_tail using that by (simp add: word_before_after letters_last_word word_after_eq)
  have L: "?L \<longleftrightarrow> (\<exists>x r1. r = [x] @ r1 \<and> is_upper x \<and>
      (\<exists>ys r2. r1 = ys @ r2 \<and> (ys \<noteq> [] \<and> list_all is_letter ys) \<and>
          ends ?tail (after (after p [x]) ys, r2) \<noteq> []))"
    unfolding consumes_then [OF consumes_Cls] consumes_then [OF consumes_Plus_Cls] by blast
  show ?thesis
  proof
    assume ?L
    then obtain x ys r2 where x: "r = [x] @ ys @ r2" "is_upper x" "ys \<noteq> []" "list_all is_letter ys"
        "ends ?tail (after (after p [x]) ys, r2) \<noteq> []"
      unfolding L by blast
    have "capitalized_word (x # ys)" using x(2-4) by (simp add: capitalized_word_def)
    moreover have "r = (x # ys) @ r2" using x(1) by simp
    moreover have "no_word_char_next r2 \<and> single_line r2" using x(5) tail [OF x(3,4)] by simp
    ultimately show ?R by blast
  next
    assume ?R
    then obtain w rest where w: "r = w @ rest" "capitalized_word w" "no_word_char_next rest" "single_line rest"
      by blast
    from w(2) obtain x ys where xy: "w = x # ys" "is_upper x" "ys \<noteq> []" "list_all is_letter ys"
      by (auto simp: capitalized_word_def split: list.splits)
    have "r = [x] @ (ys @ rest)" using w(1) xy(1) by simp
    moreover have "ends ?tail (after (after p [x]) ys, rest) \<noteq> []"
      using tail [OF xy(3,4)] w(3,4) by simp
    ultimately show ?L unfolding L using xy(2-4) by blast
  qed
qed

lemma plan_pattern_iff:
  "regex_test plan_nextStepsPattern s \<longleftrightarrow>
     (\<exists>pre w rest. s = pre @ w @ rest \<and> (numbering_prefix pre \<or> bullet_prefix pre \<or> pre = []) \<and>
        capitalized_word w \<and> no_word_char_next rest \<and> single_line rest)"
proof -
  let ?tail = "Seq WordB (Seq (Star (Cls (\<lambda>c. \<not> is_line_terminator c))) Eol)"
  let ?word = "Seq (Cls is_upper) (Seq (Plus (Cls is_letter)) ?tail)"
  let ?pre = "Opt (Seq (Star (Cls is_space))
                    (Alt (seqs [Plus (Cls is_digit), Cls is_numbering_sep, Star (Cls is_space)])
                         (Seq (Cls is_bullet) (Star (Cls is_space)))))"
  have "regex_test plan_nextStepsPattern s \<longleftrightarrow> ends (Seq ?pre ?word) (None, s) \<noteq> []"
    unfolding plan_nextStepsPattern_def seqs.simps(3) seqs.simps(2) by (rule regex_test_Bol)
  also have "\<dots> \<longleftrightarrow> (\<exists>pre r1. s = pre @ r1 \<and> (numbering_prefix pre \<or> bullet_prefix pre \<or> pre = []) \<and>
        ends ?word (after None pre, r1) \<noteq> [])"
    by (rule consumes_then [OF consumes_plan_prefix])
  also have "\<dots> \<longleftrightarrow> (\<exists>pre w rest. s = pre @ w @ rest \<and> (numbering_prefix pre \<or> bullet_prefix pre \<or> pre = []) \<and>
        capitalized_word w \<and> no_word_char_next rest \<and> single_line rest)"
    unfolding word_tail by blast
  finally show ?thesis .
qed

lemma action_verbs_capitalized: "\<forall>v \<in> set action_verbs. capitalized_word (ustr v)"
  by (simp add: action_verbs_def ustr_def capitalized_word_def is_letter_def is_lower_def is_upper_def)

lemma triage_pattern_implies_plan_pattern:
  assumes "regex_test triage_nextStepsPattern s"
  shows "regex_test plan_nextStepsPattern s"
proof -
  from assms obtain v rest where v: "v \<in> set action_verbs" "s = ustr v @ rest"
      "no_word_char_next rest" "single_line rest"
    unfolding triage_pattern_iff by blast
  have "capitalized_word (ustr v)" using action_verbs_capitalized v(1) by blast
  moreover have "s = [] @ ustr v @ rest" using v(2) by simp
  ultimately show ?thesis unfolding plan_pattern_iff using v(3,4) by blast
qed

section \<open>The validator\<close>

lemma ustr_nonempty: "cs \<noteq> [] \<Longrightarrow> ustr cs \<noteq> []"
  by (simp add: ustr_def)

lemma or_else_Null: "or_else (Inr Null) b = b"
  by (simp add: or_else_def and_then_def)

lemma or_else_Str: "m \<noteq> [] \<Longrightarrow> or_else (Inr (Str m)) b = Inr (Str m)"
  by (simp add: or_else_def and_then_def)

lemma check_items_verdict: "field \<noteq> [] \<Longrightarrow> verdict (check_items field n pat items)"
proof (induction items)
  case Nil
  show ?case by (simp add: verdict_def)
next
  case (Cons item items)
  then show ?case by (cases item; cases pat) (auto simp: verdict_def)
qed

lemma check_items_Null:
  "check_items field n pat items = Null \<longleftrightarrow>
     list_all (string_min n) items \<and>
     (case pat of None \<Rightarrow> True
      | Some p \<Rightarrow> list_all (\<lambda>item. case item of Str s \<Rightarrow> regex_test p s | _ \<Rightarrow> False) items)"
proof (induction items)
  case Nil
  show ?case by (cases pat) simp_all
next
  case (Cons item items)
  then show ?case by (cases item; cases pat) (auto simp: string_min_def)
qed

lemma checkArray_Obj:
  assumes "field \<noteq> []"
  shows "\<exists>r. checkArray (Obj kvs) field lo hi n pat = Inr r \<and> verdict r \<and>
     (r = Null \<longleftrightarrow> strings_array lo hi n (opt_get (Obj kvs) field) \<and>
        (case pat of None \<Rightarrow> True | Some p \<Rightarrow> items_match p (opt_get (Obj kvs) field)))"
proof (cases "opt_get (Obj kvs) field")
  case (Arr items)
  show ?thesis
  proof (cases "length items < lo \<or> length items > hi")
    case True
    then show ?thesis using Arr assms
      by (auto simp: checkArray_def and_then_def verdict_def strings_array_def)
  next
    case False
    then have "checkArray (Obj kvs) field lo hi n pat = Inr (check_items field n pat items)"
      using Arr by (simp add: checkArray_def and_then_def)
    then show ?thesis using Arr False check_items_verdict [OF assms] check_items_Null
      by (auto simp: strings_array_def items_match_def split: option.splits)
  qed
qed (use assms in \<open>auto simp: checkArray_def and_then_def verdict_def strings_array_def\<close>)

lemma or_else_verdict: "verdict r \<Longrightarrow> or_else (Inr r) b = (if r = Null then b else Inr r)"
  by (auto simp: verdict_def or_else_Null or_else_Str)

lemma first_missing_Obj:
  "first_missing (Obj kvs) ks = Inr (find (\<lambda>k. k \<notin> set (map fst kvs)) ks)"
  by (induction ks) (simp_all add: and_then_def)

lemma allowedKeys_nonempty: "k \<in> set allowedKeys \<Longrightarrow> k \<noteq> []"
  by (auto simp: allowedKeys_def ustr_def)

text \<open>The five array checks, for an object.\<close>

lemma array_checks_Obj:
  fixes kvs p
  defines "obj \<equiv> Obj kvs"
  defines "chain \<equiv>
    or_else (or_else (or_else (or_else
      (checkArray obj (ustr ''clarifying_questions'') 3 5 5 None)
      (checkArray obj (ustr ''proposed_approach'') 4 7 5 None))
      (checkArray obj (ustr ''recommended_tools'') 1 10 2 None))
      (checkArray obj (ustr ''risks_and_privacy'') 1 10 5 None))
      (checkArray obj (ustr ''next_steps'') 4 7 3 (Some p))"
  shows "\<exists>r. chain = Inr r \<and> verdict r \<and>
    (r = Null \<longleftrightarrow>
       strings_array 3 5 5 (opt_get obj (ustr ''clarifying_questions'')) \<and>
       strings_array 4 7 5 (opt_get obj (ustr ''proposed_approach'')) \<and>
       strings_array 1 10 2 (opt_get obj (ustr ''recommended_tools'')) \<and>
       strings_array 1 10 5 (opt_get obj (ustr ''risks_and_privacy'')) \<and>
       strings_array 4 7 3 (opt_get obj (ustr ''next_steps'')) \<and>
       items_match p (opt_get obj (ustr ''next_steps'')))"
proof -
  obtain r1 where r1: "checkArray obj (ustr ''clarifying_questions'') 3 5 5 None = Inr r1" "verdict r1"
      "r1 = Null \<longleftrightarrow> strings_array 3 5 5 (opt_get obj (ustr ''clarifying_questions''))"
    using checkArray_Obj [of "ustr ''clarifying_questions''" kvs 3 5 5 None]
    unfolding obj_def by (auto simp: ustr_def)
  obtain r2 where r2: "checkArray obj (ustr ''proposed_approach'') 4 7 5 None = Inr r2" "verdict r2"
      "r2 = Null \<longleftrightarrow> strings_array 4 7 5 (opt_get obj (ustr ''proposed_approach''))"
    using checkArray_Obj [of "ustr ''proposed_approach''" kvs 4 7 5 None]
    unfolding obj_def by (auto simp: ustr_def)
  obtain r3 where r3: "checkArray obj (ustr ''recommended_tools'') 1 10 2 None = Inr r3" "verdict r3"
      "r3 = Null \<longleftrightarrow> strings_array 1 10 2 (opt_get obj (ustr ''recommended_tools''))"
    using checkArray_Obj [of "ustr ''recommended_tools''" kvs 1 10 2 None]
    unfolding obj_def by (auto simp: ustr_def)
  obtain r4 where r4: "checkArray obj (ustr ''risks_and_privacy'') 1 10 5 None = Inr r4" "verdict r4"
      "r4 = Null \<longleftrightarrow> strings_array 1 10 5 (opt_get obj (ustr ''risks_and_privacy''))"
    using checkArray_Obj [of "ustr ''risks_and_privacy''" kvs 1 10 5 None]
    unfolding obj_def by (auto simp: ustr_def)
  obtain r5 where r5: "checkArray obj (ustr ''next_steps'') 4 7 3 (Some p) = Inr r5" "verdict r5"
      "r5 = Null \<longleftrightarrow> strings_array 4 7 3 (opt_get obj (ustr ''next_steps'')) \<and>
         items_match p (opt_get obj (ustr ''next_steps''))"
    using checkArray_Obj [of "ustr ''next_steps''" kvs 4 7 3 "Some p"]
    unfolding obj_def by (auto simp: ustr_def)
  have chain: "chain = (if r1 \<noteq> Null then Inr r1 else if r2 \<noteq> Null then Inr r2
      else if r3 \<noteq> Null then Inr r3 else if r4 \<noteq> Null then Inr r4 else Inr r5)"
    unfolding chain_def r1(1) r2(1) r3(1) r4(1) r5(1)
    using r1(2) r2(2) r3(2) r4(2) by (simp add: or_else_verdict)
  show ?thesis
    unfolding chain using r1(2,3) r2(2,3) r3(2,3) r4(2,3) r5(2,3) by auto
qed

lemma validateShape_Obj:
  "validateShape p (Obj kvs) =
    (case find (\<lambda>k. k \<notin> set allowedKeys) (map fst kvs) of
       Some k \<Rightarrow> Inr (Str (ustr ''Unexpected property: '' @ k))
     | None \<Rightarrow>
        (case find (\<lambda>k. k \<notin> set (map fst kvs)) allowedKeys of
           Some k \<Rightarrow> Inr (Str (ustr ''Missing required property: '' @ k))
         | None \<Rightarrow>
             if \<not> string_min 10 (opt_get (Obj kvs) (ustr ''problem_statement''))
             then Inr (Str (ustr ''problem_statement must be a string (minLength 10).''))
             else
               or_else (or_else (or_else (or_else
                 (checkArray (Obj kvs) (ustr ''clarifying_questions'') 3 5 5 None)
                 (checkArray (Obj kvs) (ustr ''proposed_approach'') 4 7 5 None))
                 (checkArray (Obj kvs) (ustr ''recommended_tools'') 1 10 2 None))
                 (checkArray (Obj kvs) (ustr ''risks_and_privacy'') 1 10 5 None))
                 (checkArray (Obj kvs) (ustr ''next_steps'') 4 7 3 (Some p))))"
proof -
  have ps: "(case (case map_of kvs k of None \<Rightarrow> Undefined | Some v \<Rightarrow> v) of
               Str s \<Rightarrow> length (trim s) < 10 | _ \<Rightarrow> True) \<longleftrightarrow>
            \<not> string_min 10 (opt_get (Obj kvs) k)" for k
    by (simp add: string_min_def not_le split: jsval.splits)
  show ?thesis
    unfolding validateShape_def first_missing_Obj
    by (simp add: and_then_def ps del: opt_get.simps split: option.splits)
qed

lemma validateShape_verdict: "\<exists>r. validateShape p v = Inr r \<and> verdict r"
proof (cases v)
  case (Obj kvs)
  obtain r where "or_else (or_else (or_else (or_else
                 (checkArray (Obj kvs) (ustr ''clarifying_questions'') 3 5 5 None)
                 (checkArray (Obj kvs) (ustr ''proposed_approach'') 4 7 5 None))
                 (checkArray (Obj kvs) (ustr ''recommended_tools'') 1 10 2 None))
                 (checkArray (Obj kvs) (ustr ''risks_and_privacy'') 1 10 5 None))
                 (checkArray (Obj kvs) (ustr ''next_steps'') 4 7 3 (Some p)) = Inr r" "verdict r"
    using array_checks_Obj [of kvs p] by blast
  then show ?thesis
    unfolding Obj validateShape_Obj
    by (auto simp: verdict_def ustr_def split: option.splits)
qed (simp_all add: validateShape_def verdict_def ustr_def)

lemma validateShape_Null_iff: "validateShape p v = Inr Null \<longleftrightarrow> spec_result p v"
proof (cases v)
  case (Obj kvs)
  obtain r where r: "or_else (or_else (or_else (or_else
                 (checkArray (Obj kvs) (ustr ''clarifying_questions'') 3 5 5 None)
                 (checkArray (Obj kvs) (ustr ''proposed_approach'') 4 7 5 None))
                 (checkArray (Obj kvs) (ustr ''recommended_tools'') 1 10 2 None))
                 (checkArray (Obj kvs) (ustr ''risks_and_privacy'') 1 10 5 None))
                 (checkArray (Obj kvs) (ustr ''next_steps'') 4 7 3 (Some p)) = Inr r"
      "r = Null \<longleftrightarrow>
       strings_array 3 5 5 (opt_get (Obj kvs) (ustr ''clarifying_questions'')) \<and>
       strings_array 4 7 5 (opt_get (Obj kvs) (ustr ''proposed_approach'')) \<and>
       strings_array 1 10 2 (opt_get (Obj kvs) (ustr ''recommended_tools'')) \<and>
       strings_array 1 10 5 (opt_get (Obj kvs) (ustr ''risks_and_privacy'')) \<and>
       strings_array 4 7 3 (opt_get (Obj kvs) (ustr ''next_steps'')) \<and>
       items_match p (opt_get (Obj kvs) (ustr ''next_steps''))"
    using array_checks_Obj [of kvs p] by blast
  have keys: "find (\<lambda>k. k \<notin> set allowedKeys) (map fst kvs) = None \<and>
      find (\<lambda>k. k \<notin> set (map fst kvs)) allowedKeys = None \<longleftrightarrow>
      set (map fst kvs) = set allowedKeys"
    unfolding find_None_iff by blast
  show ?thesis
  proof (cases "set (map fst kvs) = set allowedKeys")
    case True
    then have "find (\<lambda>k. k \<notin> set allowedKeys) (map fst kvs) = None"
        "find (\<lambda>k. k \<notin> set (map fst kvs)) allowedKeys = None"
      using keys by simp_all
    then show ?thesis
      unfolding Obj validateShape_Obj r(1) spec_result_def using True r(2)
      by (simp del: opt_get.simps)
  next
    case False
    then have "find (\<lambda>k. k \<notin> set allowedKeys) (map fst kvs) \<noteq> None \<or>
        find (\<lambda>k. k \<notin> set (map fst kvs)) allowedKeys \<noteq> None"
      using keys by auto
    then have "validateShape p (Obj kvs) \<noteq> Inr Null"
      unfolding validateShape_Obj by (auto split: option.splits)
    then show ?thesis unfolding Obj spec_result_def using False by simp
  qed
qed (simp_all add: validateShape_def spec_result_def)

section \<open>The handlers, stage by stage\<close>

lemma dropWhile_Nil_iff: "dropWhile P xs = [] \<longleftrightarrow> list_all P xs"
  by (induction xs) auto

lemma trim_empty_iff: "trim s = [] \<longleftrightarrow> list_all is_space s"
proof
  assume "trim s = []"
  then have all: "\<forall>x\<in>set (dropWhile is_space s). is_space x"
    by (simp add: trim_def)
  have "dropWhile is_space s = []"
  proof (rule ccontr)
    assume ne: "dropWhile is_space s \<noteq> []"
    then have "\<not> is_space (hd (dropWhile is_space s))" by (rule hd_dropWhile)
    moreover have "hd (dropWhile is_space s) \<in> set (dropWhile is_space s)" using ne by simp
    ultimately show False using all by blast
  qed
  then show "list_all is_space s" by (simp add: list_all_iff)
next
  assume "list_all is_space s"
  then show "trim s = []"
    by (auto simp: trim_def list_all_iff dest: set_dropWhileD)
qed

lemma trim_Nil: "trim [] = []"
  by (simp add: trim_def)

lemma get_prop_payload:
  "get_prop (if truthy parsed then parsed else Obj []) k = Inr (opt_get parsed k)"
  by (cases parsed) auto

lemma POST_not_OPTIONS: "ustr ''POST'' \<noteq> ustr ''OPTIONS''"
  by (simp add: ustr_def)

lemma handler_OPTIONS:
  "httpMethod ev = ustr ''OPTIONS'' \<Longrightarrow>
   handler ep P env ev =
     Inr (\<lparr>statusCode = 204, resp_headers = cors_headers, resp_body = Text []\<rparr>, [])"
  by (simp add: handler_def)

lemma handler_405:
  "httpMethod ev \<noteq> ustr ''OPTIONS'' \<Longrightarrow> httpMethod ev \<noteq> ustr ''POST'' \<Longrightarrow>
   handler ep P env ev =
     Inr (jsonResponse 405 (Obj [(ustr ''error'', Str (ustr ''Method not allowed. Use POST.''))]), [])"
  by (simp add: handler_def)

lemma handler_500:
  "httpMethod ev = ustr ''POST'' \<Longrightarrow> OPENAI_API_KEY env = None \<or> OPENAI_API_KEY env = Some [] \<Longrightarrow>
   handler ep P env ev =
     Inr (jsonResponse 500
            (Obj [(ustr ''error'', Str (ustr ''Missing OPENAI_API_KEY environment variable.''))]), [])"
  by (auto simp: handler_def POST_not_OPTIONS)

lemma raw_oversized:
  "((case body ev of None \<Rightarrow> [] | Some b \<Rightarrow> b) \<noteq> [] \<and>
     byteLength (case body ev of None \<Rightarrow> [] | Some b \<Rightarrow> b) > MAX_BODY_BYTES) \<longleftrightarrow> oversized ev"
  by (auto simp: oversized_def MAX_BODY_BYTES_def split: option.splits)

lemma handler_checked:
  assumes "httpMethod ev = ustr ''POST''" "OPENAI_API_KEY env = Some apiKey" "apiKey \<noteq> []"
  shows "handler ep P env ev =
    (if oversized ev
     then Inr (jsonResponse 413
                 (Obj [(ustr ''error'', Str (ustr ''Request body too large.'')),
                       (ustr ''requestId'', getRequestId ev)]), [])
     else case JSON_parse P (json_source P ev) of
       None \<Rightarrow> Inr (jsonResponse 400
                      (Obj [(ustr ''error'', Str (ustr ''Invalid JSON body.'')),
                            (ustr ''requestId'', getRequestId ev)]), [])
     | Some parsed \<Rightarrow>
         let t = (case designated_field ep parsed of Str s \<Rightarrow> s | _ \<Rightarrow> [])
         in if blank_field (designated_field ep parsed)
            then Inr (jsonResponse 400
                        (Obj [(ustr ''error'', Str (ustr ''Missing required field: '' @ ustr (field_name ep))),
                              (ustr ''requestId'', getRequestId ev)]), [])
            else if length t > MAX_INPUT_CHARS
            then Inr (jsonResponse 400
                        (Obj [(ustr ''error'',
                               Str (ustr ''Input is too long. Please keep it under '' @
                                    nat_to_string MAX_INPUT_CHARS @ ustr '' characters.'')),
                              (ustr ''requestId'', getRequestId ev)]), [])
            else Inr (after_provider ep P env (getRequestId ev)
                        (responses_create P (build_request ep env apiKey t)),
                      [build_request ep env apiKey t]))"
proof (cases "oversized ev")
  case True
  then show ?thesis
    using assms by (simp add: handler_def POST_not_OPTIONS Let_def raw_oversized)
next
  case False
  note not_big = this
  show ?thesis
  proof (cases "JSON_parse P (json_source P ev)")
    case None
    then show ?thesis
      using assms not_big
      by (simp add: handler_def POST_not_OPTIONS Let_def safeJsonParse_def json_source_def raw_oversized)
  next
    case (Some parsed)
    have field: "get_prop (if truthy parsed then parsed else Obj []) (ustr (field_name ep)) =
        Inr (designated_field ep parsed)"
      by (simp add: get_prop_payload designated_field_def)
    have blank: "trim (case designated_field ep parsed of Str s \<Rightarrow> s | _ \<Rightarrow> []) = [] \<longleftrightarrow>
        blank_field (designated_field ep parsed)"
      by (cases "designated_field ep parsed") (simp_all add: blank_field_def trim_empty_iff trim_Nil)
    show ?thesis
      using assms not_big Some blank
      by (simp add: handler_def POST_not_OPTIONS Let_def safeJsonParse_def json_source_def
            field and_then_def raw_oversized)
  qed
qed

lemma after_provider_success:
  assumes "out \<noteq> []" "JSON_parse P out = Some v" "validateShape (nextStepsPattern ep) v = Inr Null"
  shows "after_provider ep P env rid (Output (Str out)) = jsonResponse 200 v"
  using assms by (simp add: after_provider_def safeJsonParse_def)

lemma handler_provider:
  assumes "reaches_provider ep P env ev apiKey t"
  shows "handler ep P env ev =
    Inr (after_provider ep P env (getRequestId ev)
           (responses_create P (build_request ep env apiKey t)),
         [build_request ep env apiKey t])"
proof -
  from assms obtain parsed where p: "JSON_parse P (json_source P ev) = Some parsed"
      "designated_field ep parsed = Str t"
    by (auto simp: reaches_provider_def split: option.splits)
  have "handler ep P env ev =
    (if oversized ev
     then Inr (jsonResponse 413
                 (Obj [(ustr ''error'', Str (ustr ''Request body too large.'')),
                       (ustr ''requestId'', getRequestId ev)]), [])
     else case JSON_parse P (json_source P ev) of
       None \<Rightarrow> Inr (jsonResponse 400
                      (Obj [(ustr ''error'', Str (ustr ''Invalid JSON body.'')),
                            (ustr ''requestId'', getRequestId ev)]), [])
     | Some parsed \<Rightarrow>
         let t = (case designated_field ep parsed of Str s \<Rightarrow> s | _ \<Rightarrow> [])
         in if blank_field (designated_field ep parsed)
            then Inr (jsonResponse 400
                        (Obj [(ustr ''error'', Str (ustr ''Missing required field: '' @ ustr (field_name ep))),
                              (ustr ''requestId'', getRequestId ev)]), [])
            else if length t > MAX_INPUT_CHARS
            then Inr (jsonResponse 400
                        (Obj [(ustr ''error'',
                               Str (ustr ''Input is too long. Please keep it under '' @
                                    nat_to_string MAX_INPUT_CHARS @ ustr '' characters.'')),
                              (ustr ''requestId'', getRequestId ev)]), [])
            else Inr (after_provider ep P env (getRequestId ev)
                        (responses_create P (build_request ep env apiKey t)),
                      [build_request ep env apiKey t]))"
    using assms by (intro handler_checked) (simp_all add: reaches_provider_def)
  then show ?thesis
    using assms p by (simp add: reaches_provider_def blank_field_def)
qed


subsection \<open>The status and the body of the responses\<close>

lemma jsonResponse_fields:
  "statusCode (jsonResponse code bodyObj) = code"
  "resp_body (jsonResponse code bodyObj) = Json bodyObj"
  by (simp_all add: jsonResponse_def)

lemma error_response_fields:
  "statusCode (error_response code msg rid) = code"
  "resp_body (error_response code msg rid) =
     Json (Obj [(ustr ''error'', Str msg), (ustr ''requestId'', rid)])"
  by (simp_all add: error_response_def jsonResponse_def)

lemma plain_error_fields:
  "statusCode (plain_error code msg) = code"
  "resp_body (plain_error code msg) = Json (Obj [(ustr ''error'', Str msg)])"
  by (simp_all add: plain_error_def jsonResponse_def)

subsection \<open>Facts about the example inputs\<close>

lemma length_ustr: "length (ustr s) = length s"
  by (simp add: ustr_def)

lemma ustr_append: "ustr (a @ b) = ustr a @ ustr b"
  by (simp add: ustr_def)

lemma byteLength_le: "byteLength s \<le> 3 * length s"
  by (induction s rule: byteLength.induct) (auto simp: unit_bytes_def)

lemma example_not_oversized: "\<not> oversized example_event"
  using byteLength_le [of example_body]
  by (simp add: oversized_def example_event_def example_body_def length_ustr MAX_BODY_BYTES_def)

lemma example_source: "json_source P example_event = example_body"
  by (simp add: json_source_def example_event_def example_body_def ustr_def)

lemma example_parse: "JSON_parse example_platform example_body = Some example_payload"
  by (simp add: example_platform_def)

lemma example_field:
  "designated_field triage example_payload = Str example_text"
  "designated_field generatePlan example_payload = Str example_text"
  by (simp_all add: designated_field_def example_payload_def triage_def generatePlan_def ustr_def)

lemma example_text_ok: "\<not> list_all is_space example_text" "length example_text \<le> MAX_INPUT_CHARS"
  by (simp_all add: example_text_def ustr_def is_space_def MAX_INPUT_CHARS_def)

lemma example_POST: "httpMethod example_event = ustr ''POST''"
  by (simp add: example_event_def)

lemma example_key: "OPENAI_API_KEY example_env = Some (ustr ''sk-test'')" "ustr ''sk-test'' \<noteq> []"
  by (simp_all add: example_env_def ustr_def)

lemma example_reaches_provider:
  "reaches_provider triage example_platform example_env example_event (ustr ''sk-test'') example_text"
  "reaches_provider generatePlan example_platform example_env example_event (ustr ''sk-test'') example_text"
  unfolding reaches_provider_def example_source example_parse
  using example_not_oversized example_field example_text_ok example_POST example_key by simp_all

lemma example_result_accepted:
  "validateTriageShape example_result = Inr Null" "validatePlanShape example_result = Inr Null"
  by code_simp+

lemma example_output_parsed:
  "example_output \<noteq> []" "JSON_parse example_platform example_output = Some example_result"
  by code_simp+



lemma numbered_step_shape:
  "numbering_prefix (ustr ''1. '')" "capitalized_word (ustr ''Gather'')"
  "no_word_char_next (ustr '' the numbers'')" "single_line (ustr '' the numbers'')"
proof -
  have "ustr ''1. '' = [] @ ustr ''1'' @ 0x2E # ustr '' ''"
    by (simp add: ustr_def)
  moreover have "list_all is_space ([] :: jsstring)" "ustr ''1'' \<noteq> []" "list_all is_digit (ustr ''1'')"
      "is_numbering_sep 0x2E" "list_all is_space (ustr '' '')"
    by (simp_all add: ustr_def is_digit_def is_numbering_sep_def is_space_def)
  ultimately show "numbering_prefix (ustr ''1. '')"
    unfolding numbering_prefix_def by blast
  show "capitalized_word (ustr ''Gather'')"
    by (simp add: capitalized_word_def ustr_def is_upper_def is_letter_def is_lower_def)
  show "no_word_char_next (ustr '' the numbers'')"
    by (simp add: no_word_char_next_def ustr_def is_word_char_def is_letter_def is_lower_def
        is_upper_def is_digit_def)
  show "single_line (ustr '' the numbers'')"
    by (simp add: single_line_def ustr_def is_line_terminator_def)
qed


subsection \<open>The rejections of the request normaliser\<close>

lemma ceiling_text: "nat_to_string MAX_INPUT_CHARS = ustr ''8000''"
  by (simp add: nat_to_string.simps MAX_INPUT_CHARS_def ustr_def)

lemma handler_405_plain:
  "httpMethod ev \<noteq> ustr ''OPTIONS'' \<Longrightarrow> httpMethod ev \<noteq> ustr ''POST'' \<Longrightarrow>
   handler ep P env ev = Inr (plain_error 405 (ustr ''Method not allowed. Use POST.''), [])"
  by (simp add: handler_405 plain_error_def)

lemma handler_500_plain:
  "httpMethod ev = ustr ''POST'' \<Longrightarrow> OPENAI_API_KEY env = None \<or> OPENAI_API_KEY env = Some [] \<Longrightarrow>
   handler ep P env ev =
     Inr (plain_error 500 (ustr ''Missing OPENAI_API_KEY environment variable.''), [])"
  by (simp add: handler_500 plain_error_def)

lemma handler_413:
  assumes "httpMethod ev = ustr ''POST''" "OPENAI_API_KEY env = Some apiKey" "apiKey \<noteq> []"
    and "oversized ev"
  shows "handler ep P env ev =
     Inr (error_response 413 (ustr ''Request body too large.'') (getRequestId ev), [])"
  using assms(4) unfolding handler_checked [OF assms(1-3)] error_response_def by simp

lemma handler_400_json:
  assumes "httpMethod ev = ustr ''POST''" "OPENAI_API_KEY env = Some apiKey" "apiKey \<noteq> []"
    and "\<not> oversized ev" "JSON_parse P (json_source P ev) = None"
  shows "handler ep P env ev =
     Inr (error_response 400 (ustr ''Invalid JSON body.'') (getRequestId ev), [])"
  using assms(4,5) unfolding handler_checked [OF assms(1-3)] error_response_def by simp

lemma handler_400_missing:
  assumes "httpMethod ev = ustr ''POST''" "OPENAI_API_KEY env = Some apiKey" "apiKey \<noteq> []"
    and "\<not> oversized ev" "JSON_parse P (json_source P ev) = Some parsed"
    and "blank_field (designated_field ep parsed)"
  shows "handler ep P env ev =
     Inr (error_response 400 (ustr ''Missing required field: '' @ ustr (field_name ep))
            (getRequestId ev), [])"
  using assms(4-6) unfolding handler_checked [OF assms(1-3)] error_response_def by simp

lemma handler_400_long:
  assumes "httpMethod ev = ustr ''POST''" "OPENAI_API_KEY env = Some apiKey" "apiKey \<noteq> []"
    and "\<not> oversized ev" "JSON_parse P (json_source P ev) = Some parsed"
    and "designated_field ep parsed = Str t" "\<not> list_all is_space t" "length t > MAX_INPUT_CHARS"
  shows "handler ep P env ev =
     Inr (error_response 400
            (ustr ''Input is too long. Please keep it under 8000 characters.'')
            (getRequestId ev), [])"
proof -
  have "ustr ''Input is too long. Please keep it under '' @ nat_to_string MAX_INPUT_CHARS @
      ustr '' characters.'' = ustr ''Input is too long. Please keep it under 8000 characters.''"
    unfolding ceiling_text by (simp add: ustr_def)
  then show ?thesis
    using assms(4-8) unfolding handler_checked [OF assms(1-3)] error_response_def
    by (simp add: blank_field_def)
qed

subsection \<open>Facts about the long requests\<close>

lemma byteLength_ascii: "list_all (\<lambda>c. c < 0x80) s \<Longrightarrow> byteLength s = length s"
proof (induction s rule: byteLength.induct)
  case 1
  show ?case by simp
next
  case (2 c)
  then show ?case by (simp add: unit_bytes_def)
next
  case (3 c d cs)
  from 3(3) have c: "c < 0x80" by simp
  have "(0x80 :: cu) < 0xD800" by simp
  with c have "c < 0xD800" by (rule less_trans)
  then have "\<not> 0xD800 \<le> c" by simp
  then show ?case using 3 c by (simp add: unit_bytes_def)
qed

lemma long_body_ascii: "list_all (\<lambda>c. c < 0x80) (long_body n)"
  by (simp add: long_body_def long_text_def ustr_def list_all_iff)

lemma length_long_body: "length (long_body n) = 2 * n + 29"
  by (simp add: long_body_def long_text_def ustr_def)

lemma long_event_POST: "httpMethod (long_event n) = ustr ''POST''"
  by (simp add: long_event_def example_event_def)

lemma long_oversized: "oversized (long_event n) \<longleftrightarrow> 65536 < 2 * n + 29"
  by (simp add: oversized_def long_event_def byteLength_ascii [OF long_body_ascii]
      length_long_body MAX_BODY_BYTES_def)

lemma long_source: "json_source P (long_event n) = long_body n"
proof -
  have "long_body n \<noteq> []" using length_long_body [of n] by auto
  then show ?thesis by (simp add: json_source_def long_event_def example_event_def)
qed

lemma long_parse: "JSON_parse (long_platform n) (long_body n) = Some (long_payload n)"
  by (simp add: long_platform_def)

lemma long_field:
  "designated_field triage (long_payload n) = Str (long_text n)"
  "designated_field generatePlan (long_payload n) = Str (long_text n)"
  by (simp_all add: designated_field_def long_payload_def triage_def generatePlan_def ustr_def)

lemma long_text_facts: "length (long_text n) = n" "0 < n \<Longrightarrow> \<not> list_all is_space (long_text n)"
  by (simp_all add: long_text_def list_all_iff is_space_def)

lemma no_key: "OPENAI_API_KEY no_key_env = None"
  by (simp add: no_key_env_def example_env_def)

lemma garbled_event:
  "httpMethod (example_event\<lparr>body := Some (ustr ''not json'')\<rparr>) = ustr ''POST''"
  "\<not> oversized (example_event\<lparr>body := Some (ustr ''not json'')\<rparr>)"
  "JSON_parse example_platform
     (json_source example_platform (example_event\<lparr>body := Some (ustr ''not json'')\<rparr>)) = None"
  by (simp_all add: example_event_def oversized_def MAX_BODY_BYTES_def json_source_def
      example_platform_def example_body_def example_output_def blank_body_def ustr_def unit_bytes_def)

lemma blank_event:
  "httpMethod (example_event\<lparr>body := Some blank_body\<rparr>) = ustr ''POST''"
  "\<not> oversized (example_event\<lparr>body := Some blank_body\<rparr>)"
  "JSON_parse example_platform
     (json_source example_platform (example_event\<lparr>body := Some blank_body\<rparr>)) = Some blank_payload"
  "blank_field (designated_field triage blank_payload)"
  "blank_field (designated_field generatePlan blank_payload)"
proof -
  show "httpMethod (example_event\<lparr>body := Some blank_body\<rparr>) = ustr ''POST''"
    by (simp add: example_event_def)
  show "\<not> oversized (example_event\<lparr>body := Some blank_body\<rparr>)"
    using byteLength_le [of blank_body]
    by (simp add: oversized_def blank_body_def length_ustr MAX_BODY_BYTES_def)
  have "blank_body \<noteq> []" "blank_body \<noteq> example_body" "blank_body \<noteq> example_output"
    by (simp_all add: blank_body_def example_body_def example_output_def ustr_def)
  then show "JSON_parse example_platform
     (json_source example_platform (example_event\<lparr>body := Some blank_body\<rparr>)) = Some blank_payload"
    by (simp add: json_source_def example_event_def example_platform_def)
  show "blank_field (designated_field triage blank_payload)"
    "blank_field (designated_field generatePlan blank_payload)"
    by (simp_all add: designated_field_def blank_payload_def triage_def generatePlan_def
        blank_field_def ustr_def is_space_def)
qed


lemma multi_header_event_facts:
  "httpMethod multi_header_event = ustr ''POST''"
  "\<not> oversized multi_header_event"
  "JSON_parse example_platform (json_source example_platform multi_header_event) = Some blank_payload"
  "headers multi_header_event =
     Some [(ustr ''x-nf-request-id'', []), (ustr ''X-Request-Id'', ustr ''b-2''),
           (ustr ''x-request-id'', ustr ''client-7'')]"
proof -
  show "httpMethod multi_header_event = ustr ''POST''"
    by (simp add: multi_header_event_def example_event_def)
  show "\<not> oversized multi_header_event"
    using blank_event(2) by (simp add: oversized_def multi_header_event_def)
  have "json_source example_platform multi_header_event =
      json_source example_platform (example_event\<lparr>body := Some blank_body\<rparr>)"
    by (simp add: json_source_def multi_header_event_def)
  then show "JSON_parse example_platform (json_source example_platform multi_header_event) =
      Some blank_payload"
    using blank_event(3) by simp
  show "headers multi_header_event =
     Some [(ustr ''x-nf-request-id'', []), (ustr ''X-Request-Id'', ustr ''b-2''),
           (ustr ''x-request-id'', ustr ''client-7'')]"
    by (simp add: multi_header_event_def)
qed

section \<open>Properties of the validators\<close>

lemma items_match_mono:
  "items_match p v \<Longrightarrow> (\<And>s. regex_test p s \<Longrightarrow> regex_test p' s) \<Longrightarrow> items_match p' v"
  by (cases v) (auto simp: items_match_def list_all_iff split: jsval.splits)

lemma spec_result_mono:
  "spec_result p v \<Longrightarrow> (\<And>s. regex_test p s \<Longrightarrow> regex_test p' s) \<Longrightarrow> spec_result p' v"
  by (cases v) (auto simp: spec_result_def simp del: opt_get.simps intro: items_match_mono)

lemma accepted_next_steps:
  assumes "validateShape p v = Inr Null" "item \<in> set (next_steps_of v)"
  shows "\<exists>s. item = Str s \<and> regex_test p s"
proof -
  have "items_match p (opt_get v (ustr ''next_steps''))"
    using assms(1) unfolding validateShape_Null_iff
    by (cases v) (simp_all add: spec_result_def del: opt_get.simps)
  then obtain items where items: "opt_get v (ustr ''next_steps'') = Arr items"
      "list_all (\<lambda>item. case item of Str s \<Rightarrow> regex_test p s | _ \<Rightarrow> False) items"
    by (cases "opt_get v (ustr ''next_steps'')") (simp_all add: items_match_def)
  have "item \<in> set items"
    using assms(2) items(1) by (simp add: next_steps_of_def)
  then have "case item of Str s \<Rightarrow> regex_test p s | _ \<Rightarrow> False"
    using items(2) unfolding list_all_iff by blast
  then show ?thesis by (cases item) simp_all
qed

text \<open>
  Claim C10. Both shape validators are total on arbitrary values: for every input, be it
  \<open>null\<close>, a number, a string, an array or an object with extra, missing or wrongly typed
  fields, \<open>validateTriageShape\<close> and \<open>validatePlanShape\<close> return \<open>null\<close> or a non-empty
  error string and never throw. The validators are functions of their argument and have
  no state (the pattern has no \<open>g\<close> flag, nothing is assigned), so validating the same
  value again gives the same verdict.
\<close>

theorem validators_total:
  "(\<exists>r. validateTriageShape v = Inr r \<and> verdict r) \<and>
   (\<exists>r. validatePlanShape v = Inr r \<and> verdict r)"
  unfolding validateTriageShape_def validatePlanShape_def
  using validateShape_verdict by blast

theorem validators_total_witness:
  "(\<exists>r. validateTriageShape (Num (Finite 3)) = Inr r \<and> verdict r) \<and>
   (\<exists>r. validatePlanShape example_result = Inr r \<and> verdict r)"
  using validators_total [of "Num (Finite 3)"] validators_total [of example_result] by blast

text \<open>
  Claim C9. Every string that the closed-verb-list pattern of triage matches is matched by
  the capitalized-word pattern of generatePlan, and so every object that
  \<open>validateTriageShape\<close> accepts is accepted by \<open>validatePlanShape\<close>.
\<close>

theorem triage_acceptance_within_plan:
  "(regex_test triage_nextStepsPattern s \<longrightarrow> regex_test plan_nextStepsPattern s) \<and>
   (validateTriageShape v = Inr Null \<longrightarrow> validatePlanShape v = Inr Null)"
  unfolding validateTriageShape_def validatePlanShape_def validateShape_Null_iff
  using triage_pattern_implies_plan_pattern spec_result_mono by blast

theorem triage_acceptance_within_plan_witness:
  "regex_test triage_nextStepsPattern (ustr ''Gather the numbers'') \<and>
   regex_test plan_nextStepsPattern (ustr ''Gather the numbers'') \<and>
   validateTriageShape example_result = Inr Null \<and>
   validatePlanShape example_result = Inr Null"
proof -
  have a: "regex_test triage_nextStepsPattern (ustr ''Gather the numbers'')"
    by code_simp
  have b: "validateTriageShape example_result = Inr Null"
    by code_simp
  show ?thesis
    using triage_acceptance_within_plan [of "ustr ''Gather the numbers''" example_result] a b
    by blast
qed

text \<open>
  Claim C1. The response validator accepts exactly the objects that satisfy the
  constraints of the specification: \<open>validateTriageShape\<close> (and likewise
  \<open>validatePlanShape\<close>) returns \<open>null\<close> if and only if the value is a non-array object with
  exactly the six allowed keys, \<open>problem_statement\<close> is a string of trimmed length at
  least 10, \<open>clarifying_questions\<close> is an array of 3 to 5 strings of trimmed length at
  least 5, \<open>proposed_approach\<close> 4 to 7 strings of at least 5, \<open>recommended_tools\<close> 1 to 10
  strings of at least 2, \<open>risks_and_privacy\<close> 1 to 10 strings of at least 5, and
  \<open>next_steps\<close> 4 to 7 strings of trimmed length at least 3 that match the endpoint's
  next-steps pattern. On success the handler returns a response of status 200 whose body
  is the parsed object itself.
\<close>

theorem validators_accept_exactly_the_specified_objects:
  "(validateTriageShape v = Inr Null \<longleftrightarrow> spec_result triage_nextStepsPattern v) \<and>
   (validatePlanShape v = Inr Null \<longleftrightarrow> spec_result plan_nextStepsPattern v) \<and>
   (reaches_provider triage P env ev apiKey t \<and>
    responses_create P (build_request triage env apiKey t) = Output (Str out) \<and> out \<noteq> [] \<and>
    JSON_parse P out = Some parsed \<and> validateTriageShape parsed = Inr Null \<longrightarrow>
      (\<exists>resp. handler triage P env ev = Inr (resp, [build_request triage env apiKey t]) \<and>
         statusCode resp = 200 \<and> resp_body resp = Json parsed)) \<and>
   (reaches_provider generatePlan P env ev apiKey t \<and>
    responses_create P (build_request generatePlan env apiKey t) = Output (Str out) \<and> out \<noteq> [] \<and>
    JSON_parse P out = Some parsed \<and> validatePlanShape parsed = Inr Null \<longrightarrow>
      (\<exists>resp. handler generatePlan P env ev =
           Inr (resp, [build_request generatePlan env apiKey t]) \<and>
         statusCode resp = 200 \<and> resp_body resp = Json parsed))"
proof (intro conjI impI)
  show "validateTriageShape v = Inr Null \<longleftrightarrow> spec_result triage_nextStepsPattern v"
    unfolding validateTriageShape_def by (rule validateShape_Null_iff)
  show "validatePlanShape v = Inr Null \<longleftrightarrow> spec_result plan_nextStepsPattern v"
    unfolding validatePlanShape_def by (rule validateShape_Null_iff)
next
  assume a: "reaches_provider triage P env ev apiKey t \<and>
    responses_create P (build_request triage env apiKey t) = Output (Str out) \<and> out \<noteq> [] \<and>
    JSON_parse P out = Some parsed \<and> validateTriageShape parsed = Inr Null"
  then have "validateShape (nextStepsPattern triage) parsed = Inr Null"
    by (simp add: validateTriageShape_def triage_def)
  then have "handler triage P env ev =
      Inr (jsonResponse 200 parsed, [build_request triage env apiKey t])"
    using a handler_provider [of triage P env ev apiKey t] after_provider_success [of out P parsed triage]
    by simp
  then show "\<exists>resp. handler triage P env ev = Inr (resp, [build_request triage env apiKey t]) \<and>
         statusCode resp = 200 \<and> resp_body resp = Json parsed"
    by (simp add: jsonResponse_fields)
next
  assume a: "reaches_provider generatePlan P env ev apiKey t \<and>
    responses_create P (build_request generatePlan env apiKey t) = Output (Str out) \<and> out \<noteq> [] \<and>
    JSON_parse P out = Some parsed \<and> validatePlanShape parsed = Inr Null"
  then have "validateShape (nextStepsPattern generatePlan) parsed = Inr Null"
    by (simp add: validatePlanShape_def generatePlan_def)
  then have "handler generatePlan P env ev =
      Inr (jsonResponse 200 parsed, [build_request generatePlan env apiKey t])"
    using a handler_provider [of generatePlan P env ev apiKey t]
      after_provider_success [of out P parsed generatePlan]
    by simp
  then show "\<exists>resp. handler generatePlan P env ev =
           Inr (resp, [build_request generatePlan env apiKey t]) \<and>
         statusCode resp = 200 \<and> resp_body resp = Json parsed"
    by (simp add: jsonResponse_fields)
qed

theorem validators_accept_exactly_the_specified_objects_witness:
  "spec_result triage_nextStepsPattern example_result \<and>
   spec_result plan_nextStepsPattern example_result \<and>
   (\<exists>resp. handler triage example_platform example_env example_event =
        Inr (resp, [build_request triage example_env (ustr ''sk-test'') example_text]) \<and>
      statusCode resp = 200 \<and> resp_body resp = Json example_result) \<and>
   (\<exists>resp. handler generatePlan example_platform example_env example_event =
        Inr (resp, [build_request generatePlan example_env (ustr ''sk-test'') example_text]) \<and>
      statusCode resp = 200 \<and> resp_body resp = Json example_result)"
proof -
  have out: "responses_create example_platform req = Output (Str example_output)" for req
    by (simp add: example_platform_def)
  show ?thesis
    using validators_accept_exactly_the_specified_objects
      [of example_result example_platform example_env example_event "ustr ''sk-test''"
          example_text example_output example_result]
      example_reaches_provider example_result_accepted example_output_parsed out
    by blast
qed

text \<open>
  Claim C2. The next-steps patterns of the two endpoints differ as the specification
  describes. In generatePlan every \<open>next_steps\<close> item must begin, optionally after a
  numbering or bullet prefix, with a capitalized word (an uppercase letter followed by at
  least one more letter). In triage every item must begin with a word from the fixed
  list of action verbs, with no prefix before it. In both, the word ends there and the
  rest of the item holds no line terminator.
\<close>

theorem next_steps_patterns_differ:
  "(regex_test plan_nextStepsPattern s \<longleftrightarrow>
      (\<exists>pre w rest. s = pre @ w @ rest \<and>
         (numbering_prefix pre \<or> bullet_prefix pre \<or> pre = []) \<and>
         capitalized_word w \<and> no_word_char_next rest \<and> single_line rest)) \<and>
   (regex_test triage_nextStepsPattern s \<longleftrightarrow>
      (\<exists>verb \<in> set action_verbs. \<exists>rest. s = ustr verb @ rest \<and>
         no_word_char_next rest \<and> single_line rest)) \<and>
   (validatePlanShape v = Inr Null \<longrightarrow>
      (\<forall>item \<in> set (next_steps_of v). \<exists>s. item = Str s \<and> regex_test plan_nextStepsPattern s)) \<and>
   (validateTriageShape v = Inr Null \<longrightarrow>
      (\<forall>item \<in> set (next_steps_of v). \<exists>s. item = Str s \<and> regex_test triage_nextStepsPattern s))"
  unfolding validatePlanShape_def validateTriageShape_def
  using plan_pattern_iff [of s] triage_pattern_iff [of s]
    accepted_next_steps [of plan_nextStepsPattern v] accepted_next_steps [of triage_nextStepsPattern v]
  by blast

theorem next_steps_patterns_differ_witness:
  "regex_test plan_nextStepsPattern (ustr ''1. Gather the numbers'') \<and>
   \<not> regex_test triage_nextStepsPattern (ustr ''1. Gather the numbers'') \<and>
   regex_test triage_nextStepsPattern (ustr ''Define the labels'') \<and>
   regex_test plan_nextStepsPattern (ustr ''Implement routing'') \<and>
   regex_test triage_nextStepsPattern (ustr ''Implement routing'')"
proof -
  have split: "ustr ''1. Gather the numbers'' = ustr ''1. '' @ ustr ''Gather'' @ ustr '' the numbers''"
    by (simp add: ustr_def)
  have plan: "regex_test plan_nextStepsPattern (ustr ''1. Gather the numbers'')"
    using next_steps_patterns_differ [of "ustr ''1. Gather the numbers''" example_result]
      split numbered_step_shape by blast
  have no_verb: "\<not> (\<exists>verb \<in> set action_verbs. \<exists>rest. ustr ''1. Gather the numbers'' = ustr verb @ rest \<and>
         no_word_char_next rest \<and> single_line rest)"
    by (simp add: action_verbs_def ustr_def)
  have triage_not: "\<not> regex_test triage_nextStepsPattern (ustr ''1. Gather the numbers'')"
    using next_steps_patterns_differ [of "ustr ''1. Gather the numbers''" example_result] no_verb
    by blast
  have labels: "ustr ''Define the labels'' = ustr ''Define'' @ ustr '' the labels''"
      "''Define'' \<in> set action_verbs" "no_word_char_next (ustr '' the labels'')"
      "single_line (ustr '' the labels'')"
    by (simp_all add: ustr_def action_verbs_def no_word_char_next_def single_line_def
        is_word_char_def is_letter_def is_lower_def is_upper_def is_digit_def is_line_terminator_def)
  have triage_yes: "regex_test triage_nextStepsPattern (ustr ''Define the labels'')"
    using next_steps_patterns_differ [of "ustr ''Define the labels''" example_result] labels
    by blast
  have item: "Str (ustr ''Implement routing'') \<in> set (next_steps_of example_result)"
    by (simp add: next_steps_of_def example_result_def ustr_def)
  have "\<exists>s. Str (ustr ''Implement routing'') = Str s \<and> regex_test plan_nextStepsPattern s"
      "\<exists>s. Str (ustr ''Implement routing'') = Str s \<and> regex_test triage_nextStepsPattern s"
    using next_steps_patterns_differ [of "ustr ''Define the labels''" example_result]
      example_result_accepted item
    by blast+
  then show ?thesis
    using plan triage_not triage_yes by simp
qed

section \<open>Properties of the handlers\<close>

text \<open>
  Claim C3, as stated, fails: the missing credential is checked before the size of the
  body. A POST request whose body exceeds the 65536-byte ceiling while the API key is
  absent gets the 500 configuration error, not the 413 rejection.
\<close>

theorem credential_check_precedes_size_check:
  "httpMethod (long_event 40000) = ustr ''POST'' \<and>
   httpMethod (long_event 40000) \<noteq> ustr ''OPTIONS'' \<and>
   oversized (long_event 40000) \<and>
   OPENAI_API_KEY no_key_env = None \<and>
   handler triage (long_platform 40000) no_key_env (long_event 40000) =
     Inr (plain_error 500 (ustr ''Missing OPENAI_API_KEY environment variable.''), []) \<and>
   handler generatePlan (long_platform 40000) no_key_env (long_event 40000) =
     Inr (plain_error 500 (ustr ''Missing OPENAI_API_KEY environment variable.''), []) \<and>
   statusCode (plain_error 500 (ustr ''Missing OPENAI_API_KEY environment variable.'')) \<noteq> 413 \<and>
   statusCode (plain_error 500 (ustr ''Missing OPENAI_API_KEY environment variable.'')) = 500 \<and>
   resp_body (plain_error 500 (ustr ''Missing OPENAI_API_KEY environment variable.'')) =
     Json (Obj [(ustr ''error'', Str (ustr ''Missing OPENAI_API_KEY environment variable.''))])"
  using handler_500_plain [of "long_event 40000" no_key_env]
  by (simp add: long_event_POST long_oversized no_key POST_not_OPTIONS plain_error_def
      jsonResponse_def)

text \<open>
  Claim C3, amended. The handler applies its error checks in this order: unsupported
  HTTP method (405), missing provider credential (500), body over the 65536-byte ceiling
  (413), malformed JSON body (400), missing or blank text field (400), text over 8000
  characters (400). Each rejection is returned whatever the later checks would find; in
  particular a POST request without the credential gets the 500 whatever its body. The
  status of each of these responses is the code named, and its body is the object with
  the \<open>error\<close> message, followed by the \<open>requestId\<close> from the 413 on.
\<close>

theorem error_checks_order:
  "(httpMethod ev \<noteq> ustr ''OPTIONS'' \<and> httpMethod ev \<noteq> ustr ''POST'' \<longrightarrow>
      handler ep P env ev = Inr (plain_error 405 (ustr ''Method not allowed. Use POST.''), [])) \<and>
   (httpMethod ev = ustr ''POST'' \<and> (OPENAI_API_KEY env = None \<or> OPENAI_API_KEY env = Some []) \<longrightarrow>
      handler ep P env ev =
        Inr (plain_error 500 (ustr ''Missing OPENAI_API_KEY environment variable.''), [])) \<and>
   (httpMethod ev = ustr ''POST'' \<and> OPENAI_API_KEY env = Some apiKey \<and> apiKey \<noteq> [] \<and>
    oversized ev \<longrightarrow>
      handler ep P env ev =
        Inr (error_response 413 (ustr ''Request body too large.'') (getRequestId ev), [])) \<and>
   (httpMethod ev = ustr ''POST'' \<and> OPENAI_API_KEY env = Some apiKey \<and> apiKey \<noteq> [] \<and>
    \<not> oversized ev \<and> JSON_parse P (json_source P ev) = None \<longrightarrow>
      handler ep P env ev =
        Inr (error_response 400 (ustr ''Invalid JSON body.'') (getRequestId ev), [])) \<and>
   (httpMethod ev = ustr ''POST'' \<and> OPENAI_API_KEY env = Some apiKey \<and> apiKey \<noteq> [] \<and>
    \<not> oversized ev \<and> JSON_parse P (json_source P ev) = Some parsed \<and>
    blank_field (designated_field ep parsed) \<longrightarrow>
      handler ep P env ev =
        Inr (error_response 400 (ustr ''Missing required field: '' @ ustr (field_name ep))
               (getRequestId ev), [])) \<and>
   (httpMethod ev = ustr ''POST'' \<and> OPENAI_API_KEY env = Some apiKey \<and> apiKey \<noteq> [] \<and>
    \<not> oversized ev \<and> JSON_parse P (json_source P ev) = Some parsed \<and>
    designated_field ep parsed = Str t \<and> \<not> list_all is_space t \<and> length t > MAX_INPUT_CHARS \<longrightarrow>
      handler ep P env ev =
        Inr (error_response 400 (ustr ''Input is too long. Please keep it under 8000 characters.'')
               (getRequestId ev), [])) \<and>
   statusCode (plain_error code msg) = code \<and>
   resp_body (plain_error code msg) = Json (Obj [(ustr ''error'', Str msg)]) \<and>
   statusCode (error_response code msg rid) = code \<and>
   resp_body (error_response code msg rid) =
     Json (Obj [(ustr ''error'', Str msg), (ustr ''requestId'', rid)])"
  using handler_405_plain [of ev ep P env] handler_500_plain [of ev env ep P]
    handler_413 [of ev env apiKey ep P] handler_400_json [of ev env apiKey P ep]
    handler_400_missing [of ev env apiKey P parsed ep]
    handler_400_long [of ev env apiKey P parsed ep t]
    plain_error_fields [of code msg] error_response_fields [of code msg rid]
  by blast

theorem error_checks_order_witness:
  "handler triage example_platform example_env (example_event\<lparr>httpMethod := ustr ''GET''\<rparr>) =
     Inr (plain_error 405 (ustr ''Method not allowed. Use POST.''), []) \<and>
   handler triage (long_platform 40000) no_key_env (long_event 40000) =
     Inr (plain_error 500 (ustr ''Missing OPENAI_API_KEY environment variable.''), []) \<and>
   handler triage (long_platform 40000) example_env (long_event 40000) =
     Inr (error_response 413 (ustr ''Request body too large.'') (getRequestId (long_event 40000)), []) \<and>
   handler triage example_platform example_env (example_event\<lparr>body := Some (ustr ''not json'')\<rparr>) =
     Inr (error_response 400 (ustr ''Invalid JSON body.'')
            (getRequestId (example_event\<lparr>body := Some (ustr ''not json'')\<rparr>)), []) \<and>
   handler triage example_platform example_env (example_event\<lparr>body := Some blank_body\<rparr>) =
     Inr (error_response 400 (ustr ''Missing required field: '' @ ustr (field_name triage))
            (getRequestId (example_event\<lparr>body := Some blank_body\<rparr>)), []) \<and>
   handler triage (long_platform 8001) example_env (long_event 8001) =
     Inr (error_response 400 (ustr ''Input is too long. Please keep it under 8000 characters.'')
            (getRequestId (long_event 8001)), [])"
proof (intro conjI)
  have get: "httpMethod (example_event\<lparr>httpMethod := ustr ''GET''\<rparr>) \<noteq> ustr ''OPTIONS''"
      "httpMethod (example_event\<lparr>httpMethod := ustr ''GET''\<rparr>) \<noteq> ustr ''POST''"
    by (simp_all add: ustr_def)
  show "handler triage example_platform example_env (example_event\<lparr>httpMethod := ustr ''GET''\<rparr>) =
     Inr (plain_error 405 (ustr ''Method not allowed. Use POST.''), [])"
    using error_checks_order [of "example_event\<lparr>httpMethod := ustr ''GET''\<rparr>" triage
        example_platform example_env] get
    by blast
  show "handler triage (long_platform 40000) no_key_env (long_event 40000) =
     Inr (plain_error 500 (ustr ''Missing OPENAI_API_KEY environment variable.''), [])"
    using error_checks_order [of "long_event 40000" triage "long_platform 40000" no_key_env]
      long_event_POST [of 40000] no_key
    by blast
  have big: "oversized (long_event 40000)" by (simp add: long_oversized)
  show "handler triage (long_platform 40000) example_env (long_event 40000) =
     Inr (error_response 413 (ustr ''Request body too large.'') (getRequestId (long_event 40000)), [])"
    using error_checks_order [of "long_event 40000" triage "long_platform 40000" example_env
        "ustr ''sk-test''"]
      long_event_POST [of 40000] example_key big
    by blast
  show "handler triage example_platform example_env (example_event\<lparr>body := Some (ustr ''not json'')\<rparr>) =
     Inr (error_response 400 (ustr ''Invalid JSON body.'')
            (getRequestId (example_event\<lparr>body := Some (ustr ''not json'')\<rparr>)), [])"
    using error_checks_order [of "example_event\<lparr>body := Some (ustr ''not json'')\<rparr>" triage
        example_platform example_env "ustr ''sk-test''"]
      garbled_event example_key
    by blast
  show "handler triage example_platform example_env (example_event\<lparr>body := Some blank_body\<rparr>) =
     Inr (error_response 400 (ustr ''Missing required field: '' @ ustr (field_name triage))
            (getRequestId (example_event\<lparr>body := Some blank_body\<rparr>)), [])"
    using error_checks_order [of "example_event\<lparr>body := Some blank_body\<rparr>" triage
        example_platform example_env "ustr ''sk-test''" blank_payload]
      blank_event example_key
    by blast
  have small: "\<not> oversized (long_event 8001)" by (simp add: long_oversized)
  have long: "\<not> list_all is_space (long_text 8001)" "length (long_text 8001) > MAX_INPUT_CHARS"
    by (simp_all add: long_text_facts MAX_INPUT_CHARS_def)
  show "handler triage (long_platform 8001) example_env (long_event 8001) =
     Inr (error_response 400 (ustr ''Input is too long. Please keep it under 8000 characters.'')
            (getRequestId (long_event 8001)), [])"
    using error_checks_order [of "long_event 8001" triage "long_platform 8001" example_env
        "ustr ''sk-test''" "long_payload 8001" "long_text 8001"]
      long_event_POST [of 8001] example_key small long long_source [of "long_platform 8001" 8001]
      long_parse [of 8001] long_field(1) [of 8001]
    by simp
qed

subsection \<open>The shape of every response\<close>

lemma toHttpError_status:
  "err_statusCode (toHttpError err) = 502 \<or> err_statusCode (toHttpError err) = 429"
  by (simp add: toHttpError_def Let_def)

lemma key_names_distinct:
  "ustr ''error'' \<noteq> ustr ''requestId''" "ustr ''error'' \<noteq> ustr ''details''"
  "ustr ''error'' \<noteq> ustr ''model_output''" "ustr ''requestId'' \<noteq> ustr ''details''"
  "ustr ''requestId'' \<noteq> ustr ''model_output''" "ustr ''details'' \<noteq> ustr ''model_output''"
  "ustr ''requestId'' \<noteq> ustr ''error''" "ustr ''details'' \<noteq> ustr ''error''"
  "ustr ''model_output'' \<noteq> ustr ''error''" "ustr ''details'' \<noteq> ustr ''requestId''"
  "ustr ''model_output'' \<noteq> ustr ''requestId''" "ustr ''model_output'' \<noteq> ustr ''details''"
  by (simp_all add: ustr_def)

lemma not_result_keys:
  "ustr ''requestId'' \<notin> set allowedKeys" "ustr ''details'' \<notin> set allowedKeys"
  "ustr ''model_output'' \<notin> set allowedKeys"
  by (simp_all add: allowedKeys_def ustr_def)

lemma accepted_has_only_result_keys:
  assumes "validateShape p v = Inr Null" "k \<notin> set allowedKeys"
  shows "\<exists>kvs. v = Obj kvs \<and> map_of kvs k = None"
proof -
  from assms(1) have "spec_result p v" by (simp add: validateShape_Null_iff)
  then obtain kvs where "v = Obj kvs" "set (map fst kvs) = set allowedKeys"
    by (cases v) (simp_all add: spec_result_def del: opt_get.simps)
  then show ?thesis using assms(2) by (auto simp: map_of_eq_None_iff)
qed

text \<open>
  What the \<open>try\<close> block returns: the accepted object with status 200, or an error
  envelope with another status, whose extra fields appear in debug mode only.
\<close>

lemma after_provider_cases:
  "(\<exists>out v. outcome = Output (Str out) \<and> out \<noteq> [] \<and> JSON_parse P out = Some v \<and>
       validateShape (nextStepsPattern ep) v = Inr Null \<and>
       after_provider ep P env rid outcome = jsonResponse 200 v) \<or>
   (\<exists>code msg extra. code \<noteq> 200 \<and>
       after_provider ep P env rid outcome =
         jsonResponse code (Obj ([(ustr ''error'', Str msg), (ustr ''requestId'', rid)] @ extra)) \<and>
       (\<not> DEBUG_ERRORS env \<longrightarrow> extra = []))"
proof -
  have caught: "\<exists>code msg extra. code \<noteq> 200 \<and>
       catch_response P env rid err =
         jsonResponse code (Obj ([(ustr ''error'', Str msg), (ustr ''requestId'', rid)] @ extra)) \<and>
       (\<not> DEBUG_ERRORS env \<longrightarrow> extra = [])" for err
  proof -
    have "err_statusCode (toHttpError err) \<noteq> 200"
      using toHttpError_status [of err] by auto
    then show ?thesis
      unfolding catch_response_def Let_def by (intro exI conjI) (assumption, rule refl, simp)
  qed
  have plain: "\<exists>code msg extra. code \<noteq> 200 \<and>
       jsonResponse 502 (Obj ([(ustr ''error'', Str m), (ustr ''requestId'', rid)] @ x)) =
         jsonResponse code (Obj ([(ustr ''error'', Str msg), (ustr ''requestId'', rid)] @ extra)) \<and>
       (\<not> DEBUG_ERRORS env \<longrightarrow> extra = [])" if "\<not> DEBUG_ERRORS env \<longrightarrow> x = []" for m x
    using that by (intro exI [of _ 502] exI [of _ m] exI [of _ x]) simp
  show ?thesis
  proof (cases outcome)
    case (Threw err)
    then show ?thesis using caught [of err] by (simp add: after_provider_def)
  next
    case (Output val)
    show ?thesis
    proof (cases val)
      case (Str out)
      show ?thesis
      proof (cases "out = []")
        case True
        then show ?thesis using Output Str plain [of "[]"]
          by (simp add: after_provider_def)
      next
        case False
        note nonempty = this
        show ?thesis
        proof (cases "JSON_parse P out")
          case None
          then show ?thesis
            using Output Str nonempty
              plain [of "if DEBUG_ERRORS env then [(ustr ''model_output'', Str (take 2000 out))] else []"]
            by (simp add: after_provider_def safeJsonParse_def)
        next
          case (Some v)
          obtain r where r: "validateShape (nextStepsPattern ep) v = Inr r" "verdict r"
            using validateShape_verdict by blast
          show ?thesis
          proof (cases "r = Null")
            case True
            then show ?thesis using Output Str nonempty Some r
              by (simp add: after_provider_def safeJsonParse_def)
          next
            case False
            then have "truthy r" using r(2) by (auto simp: verdict_def)
            then show ?thesis
              using Output Str nonempty Some r(1)
                plain [of "if DEBUG_ERRORS env
                           then [(ustr ''details'', r), (ustr ''model_output'', Str (take 2000 out))]
                           else []"]
              by (simp add: after_provider_def safeJsonParse_def)
          qed
        qed
      qed
    qed (use Output plain [of "[]"] in \<open>simp_all add: after_provider_def\<close>)
  qed
qed

lemma body_field_envelope:
  "body_field (jsonResponse code (Obj ([(ustr ''error'', Str msg), (ustr ''requestId'', rid)] @ extra)))
     ''requestId'' = Some rid"
  by (simp add: body_field_def jsonResponse_def key_names_distinct)

lemma body_field_error_response:
  "body_field (error_response code msg rid) ''requestId'' = Some rid"
  "body_field (error_response code msg rid) ''error'' = Some (Str msg)"
  "body_field (error_response code msg rid) ''details'' = None"
  "body_field (error_response code msg rid) ''model_output'' = None"
  "statusCode (error_response code msg rid) = code"
  by (simp_all add: body_field_def error_response_def jsonResponse_def key_names_distinct)

lemma body_field_plain_error:
  "body_field (plain_error code msg) ''details'' = None"
  "body_field (plain_error code msg) ''model_output'' = None"
  "statusCode (plain_error code msg) = code"
  by (simp_all add: body_field_def plain_error_def jsonResponse_def key_names_distinct)

lemma body_field_accepted:
  assumes "validateShape p v = Inr Null" "ustr k \<notin> set allowedKeys"
  shows "body_field (jsonResponse code v) k = None"
  using accepted_has_only_result_keys [OF assms]
  by (auto simp: body_field_def jsonResponse_def)

text \<open>Every result of a POST request that carries the credential.\<close>

lemma handler_cases:
  assumes "httpMethod ev = ustr ''POST''" "OPENAI_API_KEY env = Some apiKey" "apiKey \<noteq> []"
  shows "\<exists>resp calls. handler ep P env ev = Inr (resp, calls) \<and>
    ((\<exists>v. validateShape (nextStepsPattern ep) v = Inr Null \<and> resp = jsonResponse 200 v) \<or>
     (\<exists>code msg extra. code \<noteq> 200 \<and>
        resp = jsonResponse code
                 (Obj ([(ustr ''error'', Str msg), (ustr ''requestId'', getRequestId ev)] @ extra)) \<and>
        (\<not> DEBUG_ERRORS env \<longrightarrow> extra = [])))"
proof -
  have early: "\<exists>resp calls. Inr (error_response code msg (getRequestId ev), []) = Inr (resp, calls) \<and>
    ((\<exists>v. validateShape (nextStepsPattern ep) v = Inr Null \<and> resp = jsonResponse 200 v) \<or>
     (\<exists>code msg extra. code \<noteq> 200 \<and>
        resp = jsonResponse code
                 (Obj ([(ustr ''error'', Str msg), (ustr ''requestId'', getRequestId ev)] @ extra)) \<and>
        (\<not> DEBUG_ERRORS env \<longrightarrow> extra = [])))"
    if "code \<noteq> 200" for code :: nat and msg and calls :: "provider_request list"
  proof -
    have "error_response code msg (getRequestId ev) =
        jsonResponse code (Obj ([(ustr ''error'', Str msg), (ustr ''requestId'', getRequestId ev)] @ []))"
      by (simp add: error_response_def)
    then show ?thesis using that by blast
  qed
  consider (big) "oversized ev"
    | (bad) "\<not> oversized ev" "JSON_parse P (json_source P ev) = None"
    | (blank) parsed where "\<not> oversized ev" "JSON_parse P (json_source P ev) = Some parsed"
        "blank_field (designated_field ep parsed)"
    | (long) parsed t where "\<not> oversized ev" "JSON_parse P (json_source P ev) = Some parsed"
        "designated_field ep parsed = Str t" "\<not> list_all is_space t" "length t > MAX_INPUT_CHARS"
    | (ok) parsed t where "\<not> oversized ev" "JSON_parse P (json_source P ev) = Some parsed"
        "designated_field ep parsed = Str t" "\<not> list_all is_space t" "length t \<le> MAX_INPUT_CHARS"
  proof (cases "oversized ev")
    case True
    then show ?thesis using big by blast
  next
    case False
    show ?thesis
    proof (cases "JSON_parse P (json_source P ev)")
      case None
      then show ?thesis using bad False by blast
    next
      case (Some parsed)
      show ?thesis
      proof (cases "blank_field (designated_field ep parsed)")
        case True
        then show ?thesis using blank False Some by blast
      next
        case nb: False
        then obtain t where t: "designated_field ep parsed = Str t" "\<not> list_all is_space t"
          by (cases "designated_field ep parsed") (simp_all add: blank_field_def)
        show ?thesis
          using long [OF False Some t] ok [OF False Some t] by (cases "length t > MAX_INPUT_CHARS") auto
      qed
    qed
  qed
  then show ?thesis
  proof cases
    case big
    show ?thesis
      unfolding handler_413 [OF assms big] by (rule early) simp
  next
    case bad
    show ?thesis
      unfolding handler_400_json [OF assms bad] by (rule early) simp
  next
    case blank
    show ?thesis
      unfolding handler_400_missing [OF assms blank] by (rule early) simp
  next
    case long
    show ?thesis
      unfolding handler_400_long [OF assms long] by (rule early) simp
  next
    case ok
    have "reaches_provider ep P env ev apiKey t"
      using assms ok by (simp add: reaches_provider_def)
    then have h: "handler ep P env ev =
        Inr (after_provider ep P env (getRequestId ev)
               (responses_create P (build_request ep env apiKey t)),
             [build_request ep env apiKey t])"
      by (rule handler_provider)
    show ?thesis
      unfolding h
      using after_provider_cases [of "responses_create P (build_request ep env apiKey t)" P ep env
          "getRequestId ev"]
      by auto
  qed
qed

lemma getRequestId_example: "getRequestId example_event = Str (ustr ''req-42'')"
  by (simp add: getRequestId_def example_event_def js_or_def ustr_def)

text \<open>
  Claim C4, as stated, fails: the success response is the validated object alone, and the
  validator admits no key beyond the six result keys. A request that carries the header
  \<open>x-request-id\<close> and succeeds gets a 200 body without a \<open>requestId\<close> field.
\<close>

theorem success_response_without_request_id:
  "getRequestId example_event = Str (ustr ''req-42'') \<and>
   handler triage example_platform example_env example_event =
     Inr (jsonResponse 200 example_result,
          [build_request triage example_env (ustr ''sk-test'') example_text]) \<and>
   body_field (jsonResponse 200 example_result) ''requestId'' = None \<and>
   statusCode (jsonResponse 200 example_result) = 200 \<and>
   resp_body (jsonResponse 200 example_result) = Json example_result"
proof -
  have "validateShape triage_nextStepsPattern example_result = Inr Null"
    using example_result_accepted(1) by (simp add: validateTriageShape_def)
  then have ok: "validateShape (nextStepsPattern triage) example_result = Inr Null"
    by (simp add: triage_def)
  have "handler triage example_platform example_env example_event =
     Inr (after_provider triage example_platform example_env (getRequestId example_event)
            (responses_create example_platform
               (build_request triage example_env (ustr ''sk-test'') example_text)),
          [build_request triage example_env (ustr ''sk-test'') example_text])"
    using example_reaches_provider(1) by (rule handler_provider)
  moreover have "responses_create example_platform req = Output (Str example_output)" for req
    by (simp add: example_platform_def)
  ultimately have "handler triage example_platform example_env example_event =
     Inr (jsonResponse 200 example_result,
          [build_request triage example_env (ustr ''sk-test'') example_text])"
    using after_provider_success [OF example_output_parsed ok] by simp
  then show ?thesis
    using getRequestId_example body_field_accepted [OF ok not_result_keys(1)]
    by (simp add: jsonResponse_fields)
qed

lemma getRequestId_first:
  assumes "headers ev = Some hs" "correlation_headers = before @ name # rest"
    and "map_of hs (ustr name) = Some v" "v \<noteq> []"
    and "\<forall>other \<in> set before. map_of hs (ustr other) = None \<or> map_of hs (ustr other) = Some []"
  shows "getRequestId ev = Str v"
proof -
  from assms(2) consider
      "before = []" "name = ''x-nf-request-id''"
    | "before = [''x-nf-request-id'']" "name = ''X-Nf-Request-Id''"
    | "before = [''x-nf-request-id'', ''X-Nf-Request-Id'']" "name = ''x-request-id''"
    | "before = [''x-nf-request-id'', ''X-Nf-Request-Id'', ''x-request-id'']" "name = ''X-Request-Id''"
    unfolding correlation_headers_def
    by (auto simp: Cons_eq_append_conv)
  then show ?thesis
    using assms(1,3,4,5)
    by cases (auto simp: getRequestId_def js_or_def Let_def)
qed

lemma getRequestId_absent:
  assumes "headers ev = None \<or>
    (\<exists>hs. headers ev = Some hs \<and>
       (\<forall>name \<in> set correlation_headers.
          map_of hs (ustr name) = None \<or> map_of hs (ustr name) = Some []))"
  shows "getRequestId ev = Null"
  using assms by (auto simp: getRequestId_def correlation_headers_def js_or_def Let_def)

text \<open>
  Claim C4, amended. For every POST request handled with the provider credential
  present, every error response (413, 400, 429 and 502) carries in its \<open>requestId\<close>
  field the correlation id that \<open>getRequestId\<close> reads from the request, and the 200
  success response has no \<open>requestId\<close> field. The correlation id is, unchanged, the
  value of the first header in the order \<open>x-nf-request-id\<close>, \<open>X-Nf-Request-Id\<close>,
  \<open>x-request-id\<close>, \<open>X-Request-Id\<close> that is present and not empty, whatever the
  headers after it hold; it is \<open>null\<close> when the request has no headers or when each of
  the four is absent or empty.
\<close>

theorem correlation_id_on_error_responses:
  "(httpMethod ev = ustr ''POST'' \<and> OPENAI_API_KEY env = Some apiKey \<and> apiKey \<noteq> [] \<and>
    handler ep P env ev = Inr (resp, calls) \<longrightarrow>
      (statusCode resp \<noteq> 200 \<longrightarrow> body_field resp ''requestId'' = Some (getRequestId ev)) \<and>
      (statusCode resp = 200 \<longrightarrow> body_field resp ''requestId'' = None)) \<and>
   (headers ev = Some hs \<and> correlation_headers = before @ name # rest \<and>
    map_of hs (ustr name) = Some v \<and> v \<noteq> [] \<and>
    (\<forall>other \<in> set before. map_of hs (ustr other) = None \<or> map_of hs (ustr other) = Some []) \<longrightarrow>
      getRequestId ev = Str v) \<and>
   (headers ev = None \<or>
    (\<exists>hs'. headers ev = Some hs' \<and>
       (\<forall>other \<in> set correlation_headers.
          map_of hs' (ustr other) = None \<or> map_of hs' (ustr other) = Some [])) \<longrightarrow>
      getRequestId ev = Null)"
proof (intro conjI impI)
  assume a: "httpMethod ev = ustr ''POST'' \<and> OPENAI_API_KEY env = Some apiKey \<and> apiKey \<noteq> [] \<and>
    handler ep P env ev = Inr (resp, calls)"
  then consider
      (accepted) v where "validateShape (nextStepsPattern ep) v = Inr Null" "resp = jsonResponse 200 v"
    | (rejected) code msg extra where "code \<noteq> 200"
        "resp = jsonResponse code
                 (Obj ([(ustr ''error'', Str msg), (ustr ''requestId'', getRequestId ev)] @ extra))"
    using handler_cases [of ev env apiKey ep P] by auto
  then have both: "(statusCode resp \<noteq> 200 \<longrightarrow> body_field resp ''requestId'' = Some (getRequestId ev)) \<and>
      (statusCode resp = 200 \<longrightarrow> body_field resp ''requestId'' = None)"
  proof cases
    case accepted
    then show ?thesis
      using body_field_accepted [OF accepted(1) not_result_keys(1), of 200]
      by (simp add: jsonResponse_def)
  next
    case rejected
    then show ?thesis
      using body_field_envelope [of code msg "getRequestId ev" extra]
      by (simp add: jsonResponse_def)
  qed
  from both show "statusCode resp \<noteq> 200 \<Longrightarrow> body_field resp ''requestId'' = Some (getRequestId ev)"
    by blast
  from both show "statusCode resp = 200 \<Longrightarrow> body_field resp ''requestId'' = None"
    by blast
next
  assume "headers ev = Some hs \<and> correlation_headers = before @ name # rest \<and>
    map_of hs (ustr name) = Some v \<and> v \<noteq> [] \<and>
    (\<forall>other \<in> set before. map_of hs (ustr other) = None \<or> map_of hs (ustr other) = Some [])"
  then show "getRequestId ev = Str v" using getRequestId_first [of ev hs before name rest v] by blast
next
  assume "headers ev = None \<or>
    (\<exists>hs'. headers ev = Some hs' \<and>
       (\<forall>other \<in> set correlation_headers.
          map_of hs' (ustr other) = None \<or> map_of hs' (ustr other) = Some []))"
  then show "getRequestId ev = Null" by (rule getRequestId_absent)
qed

theorem correlation_id_on_error_responses_witness:
  "getRequestId multi_header_event = Str (ustr ''client-7'') \<and>
   (\<exists>resp. handler triage example_platform example_env multi_header_event = Inr (resp, []) \<and>
      statusCode resp = 400 \<and>
      body_field resp ''requestId'' = Some (Str (ustr ''client-7''))) \<and>
   getRequestId (example_event\<lparr>headers := None\<rparr>) = Null \<and>
   getRequestId (example_event\<lparr>headers := Some [(ustr ''x-request-id'', [])]\<rparr>) = Null"
proof -
  let ?hs = "[(ustr ''x-nf-request-id'', []), (ustr ''X-Request-Id'', ustr ''b-2''),
              (ustr ''x-request-id'', ustr ''client-7'')]"
  let ?resp = "error_response 400 (ustr ''Missing required field: '' @ ustr (field_name triage))
            (getRequestId multi_header_event)"
  have h: "handler triage example_platform example_env multi_header_event = Inr (?resp, [])"
    using handler_400_missing [OF multi_header_event_facts(1) example_key
        multi_header_event_facts(2,3) blank_event(4)] .
  have order: "correlation_headers =
      [''x-nf-request-id'', ''X-Nf-Request-Id''] @ ''x-request-id'' # [''X-Request-Id'']"
    by (simp add: correlation_headers_def)
  have found: "map_of ?hs (ustr ''x-request-id'') = Some (ustr ''client-7'')"
      "ustr ''client-7'' \<noteq> []"
      "\<forall>other \<in> set [''x-nf-request-id'', ''X-Nf-Request-Id''].
         map_of ?hs (ustr other) = None \<or> map_of ?hs (ustr other) = Some []"
    by (simp_all add: ustr_def)
  have st: "statusCode ?resp = 400" "statusCode ?resp \<noteq> 200"
    by (simp_all add: error_response_fields)
  have id: "getRequestId multi_header_event = Str (ustr ''client-7'')"
    using correlation_id_on_error_responses
      [of multi_header_event example_env "ustr ''sk-test''" triage example_platform ?resp "[]"
          ?hs "[''x-nf-request-id'', ''X-Nf-Request-Id'']" "''x-request-id''" "[''X-Request-Id'']"
          "ustr ''client-7''"]
      multi_header_event_facts(4) order found by blast
  have "body_field ?resp ''requestId'' = Some (getRequestId multi_header_event)"
    using correlation_id_on_error_responses
      [of multi_header_event example_env "ustr ''sk-test''" triage example_platform ?resp "[]"
          ?hs "[''x-nf-request-id'', ''X-Nf-Request-Id'']" "''x-request-id''" "[''X-Request-Id'']"
          "ustr ''client-7''"]
      multi_header_event_facts(1) example_key h st(2) by blast
  then have seen: "\<exists>resp. handler triage example_platform example_env multi_header_event =
        Inr (resp, []) \<and> statusCode resp = 400 \<and>
      body_field resp ''requestId'' = Some (Str (ustr ''client-7''))"
    using h st(1) id by simp
  have none: "getRequestId (example_event\<lparr>headers := None\<rparr>) = Null"
    using correlation_id_on_error_responses
      [of "example_event\<lparr>headers := None\<rparr>" example_env "ustr ''sk-test''" triage
          example_platform ?resp "[]" "[]" "[]" "''x-request-id''" "[]" "ustr ''req-42''"]
    by simp
  have empty: "\<exists>hs'. headers (example_event\<lparr>headers := Some [(ustr ''x-request-id'', [])]\<rparr>) = Some hs' \<and>
       (\<forall>other \<in> set correlation_headers.
          map_of hs' (ustr other) = None \<or> map_of hs' (ustr other) = Some [])"
    by (simp add: correlation_headers_def ustr_def)
  have blank: "getRequestId (example_event\<lparr>headers := Some [(ustr ''x-request-id'', [])]\<rparr>) = Null"
    using correlation_id_on_error_responses
      [of "example_event\<lparr>headers := Some [(ustr ''x-request-id'', [])]\<rparr>" example_env
          "ustr ''sk-test''" triage example_platform ?resp "[]" "[]" "[]" "''x-request-id''" "[]"
          "ustr ''req-42''"]
      empty
    by blast
  show ?thesis using id seen none blank by blast
qed

text \<open>
  Claim C5, as stated, fails: a POST request whose body parses as JSON with a text of
  40000 characters has a body over the 65536-byte ceiling and gets the 413 rejection;
  without the API key it gets the 500 configuration error. Neither is the 400 response.
\<close>

theorem long_input_not_always_400:
  "httpMethod (long_event 40000) = ustr ''POST'' \<and>
   JSON_parse (long_platform 40000) (json_source (long_platform 40000) (long_event 40000)) =
     Some (long_payload 40000) \<and>
   designated_field triage (long_payload 40000) = Str (long_text 40000) \<and>
   \<not> list_all is_space (long_text 40000) \<and>
   8000 < length (long_text 40000) \<and>
   handler triage (long_platform 40000) example_env (long_event 40000) =
     Inr (error_response 413 (ustr ''Request body too large.'') (getRequestId (long_event 40000)), []) \<and>
   statusCode (error_response 413 (ustr ''Request body too large.'') (getRequestId (long_event 40000)))
     \<noteq> 400 \<and>
   handler triage (long_platform 40000) no_key_env (long_event 40000) =
     Inr (plain_error 500 (ustr ''Missing OPENAI_API_KEY environment variable.''), []) \<and>
   statusCode (plain_error 500 (ustr ''Missing OPENAI_API_KEY environment variable.'')) \<noteq> 400 \<and>
   statusCode (error_response 413 (ustr ''Request body too large.'') (getRequestId (long_event 40000)))
     = 413 \<and>
   statusCode (plain_error 500 (ustr ''Missing OPENAI_API_KEY environment variable.'')) = 500"
proof -
  have big: "oversized (long_event 40000)" by (simp add: long_oversized)
  have "handler triage (long_platform 40000) example_env (long_event 40000) =
     Inr (error_response 413 (ustr ''Request body too large.'') (getRequestId (long_event 40000)), [])"
    using handler_413 [OF long_event_POST example_key big] .
  moreover have "handler triage (long_platform 40000) no_key_env (long_event 40000) =
     Inr (plain_error 500 (ustr ''Missing OPENAI_API_KEY environment variable.''), [])"
    using handler_500_plain [OF long_event_POST] no_key by blast
  ultimately show ?thesis
    by (simp add: long_event_POST long_source long_parse long_field long_text_facts
        body_field_error_response body_field_plain_error)
qed

lemma no_call_when_long:
  assumes "JSON_parse P (json_source P ev) = Some parsed" "designated_field ep parsed = Str t"
    and "length t > MAX_INPUT_CHARS"
  shows "\<exists>resp. handler ep P env ev = Inr (resp, [])"
proof (cases "httpMethod ev = ustr ''OPTIONS''")
  case True
  then show ?thesis by (simp add: handler_OPTIONS)
next
  case False
  note not_options = this
  show ?thesis
  proof (cases "httpMethod ev = ustr ''POST''")
    case False
    then show ?thesis using not_options by (simp add: handler_405)
  next
    case True
    note post = this
    show ?thesis
    proof (cases "OPENAI_API_KEY env = None \<or> OPENAI_API_KEY env = Some []")
      case True
      then show ?thesis using handler_500 [OF post] by simp
    next
      case False
      then obtain apiKey where key: "OPENAI_API_KEY env = Some apiKey" "apiKey \<noteq> []"
        by (cases "OPENAI_API_KEY env") auto
      show ?thesis
      proof (cases "oversized ev")
        case True
        then show ?thesis using handler_413 [OF post key] by simp
      next
        case False
        show ?thesis
        proof (cases "list_all is_space t")
          case True
          then have "blank_field (designated_field ep parsed)"
            using assms(2) by (simp add: blank_field_def)
          then show ?thesis using handler_400_missing [OF post key False assms(1)] by simp
        next
          case nb: False
          show ?thesis using handler_400_long [OF post key False assms(1,2) nb assms(3)] by simp
        qed
      qed
    qed
  qed
qed

text \<open>
  Claim C5, amended. For every POST request with the provider credential present and
  the body within the 65536-byte ceiling, whose body parses as JSON with a text field
  that is a string, not blank after trimming, and longer than 8000 characters, the
  handler returns a 400 response whose message names the 8000-character ceiling. For
  every request whose text field is longer than 8000 characters, whatever the method,
  the credential and the body size, the completion client is not invoked. The status of
  that response is 400 and its body is the object with the \<open>error\<close> message and the
  \<open>requestId\<close>.
\<close>

theorem long_input_rejected:
  "(httpMethod ev = ustr ''POST'' \<and> OPENAI_API_KEY env = Some apiKey \<and> apiKey \<noteq> [] \<and>
    \<not> oversized ev \<and> JSON_parse P (json_source P ev) = Some parsed \<and>
    designated_field ep parsed = Str t \<and> \<not> list_all is_space t \<and> 8000 < length t \<longrightarrow>
      handler ep P env ev =
        Inr (error_response 400 (ustr ''Input is too long. Please keep it under 8000 characters.'')
               (getRequestId ev), [])) \<and>
   (JSON_parse P (json_source P ev) = Some parsed \<and> designated_field ep parsed = Str t \<and>
    8000 < length t \<longrightarrow>
      (\<exists>resp. handler ep P env ev = Inr (resp, []))) \<and>
   statusCode (error_response code msg rid) = code \<and>
   resp_body (error_response code msg rid) =
     Json (Obj [(ustr ''error'', Str msg), (ustr ''requestId'', rid)])"
  using handler_400_long [of ev env apiKey P parsed ep t] no_call_when_long [of P ev parsed ep t env]
  by (simp add: MAX_INPUT_CHARS_def error_response_fields)

theorem long_input_rejected_witness:
  "handler triage (long_platform 8001) example_env (long_event 8001) =
     Inr (error_response 400 (ustr ''Input is too long. Please keep it under 8000 characters.'')
            (getRequestId (long_event 8001)), []) \<and>
   (\<exists>resp. handler generatePlan (long_platform 40000) no_key_env (long_event 40000) = Inr (resp, []))"
proof -
  have small: "\<not> oversized (long_event 8001)" by (simp add: long_oversized)
  have long: "\<not> list_all is_space (long_text 8001)" "8000 < length (long_text 8001)"
      "8000 < length (long_text 40000)"
    by (simp_all add: long_text_facts)
  have "handler triage (long_platform 8001) example_env (long_event 8001) =
     Inr (error_response 400 (ustr ''Input is too long. Please keep it under 8000 characters.'')
            (getRequestId (long_event 8001)), [])"
    using long_input_rejected [of "long_event 8001" example_env "ustr ''sk-test''" "long_platform 8001"
        "long_payload 8001" triage "long_text 8001"]
      long_event_POST [of 8001] example_key small long(1,2) long_source [of "long_platform 8001" 8001]
      long_parse [of 8001] long_field(1) [of 8001]
    by simp
  moreover have "\<exists>resp. handler generatePlan (long_platform 40000) no_key_env (long_event 40000) =
      Inr (resp, [])"
    using long_input_rejected [of "long_event 40000" no_key_env "ustr ''sk-test''" "long_platform 40000"
        "long_payload 40000" generatePlan "long_text 40000"]
      long(3) long_source [of "long_platform 40000" 40000]
      long_parse [of 40000] long_field(2) [of 40000]
    by simp
  ultimately show ?thesis by blast
qed

text \<open>
  Claim C6. For every POST request with the credential present and the body within the
  size ceiling, whose JSON body has the designated text field (\<open>userMessage\<close> for
  triage, \<open>input\<close> for generatePlan) absent, not a string, empty or white space only,
  the handler returns a response of status 400 whose body is the object with the
  message \<open>Missing required field\<close> naming the field and with the \<open>requestId\<close>,
  whatever other fields the request body has, and the provider is not called. An empty
  body is treated as \<open>{}\<close> and rejected in the same way.
\<close>

theorem missing_text_field_rejected:
  "(httpMethod ev = ustr ''POST'' \<and> OPENAI_API_KEY env = Some apiKey \<and> apiKey \<noteq> [] \<and>
    \<not> oversized ev \<and> JSON_parse P (json_source P ev) = Some parsed \<and>
    blank_field (designated_field triage parsed) \<longrightarrow>
      (\<exists>resp. handler triage P env ev = Inr (resp, []) \<and> statusCode resp = 400 \<and>
         resp_body resp =
           Json (Obj [(ustr ''error'', Str (ustr ''Missing required field: userMessage'')),
                      (ustr ''requestId'', getRequestId ev)]))) \<and>
   (httpMethod ev = ustr ''POST'' \<and> OPENAI_API_KEY env = Some apiKey \<and> apiKey \<noteq> [] \<and>
    \<not> oversized ev \<and> JSON_parse P (json_source P ev) = Some parsed \<and>
    blank_field (designated_field generatePlan parsed) \<longrightarrow>
      (\<exists>resp. handler generatePlan P env ev = Inr (resp, []) \<and> statusCode resp = 400 \<and>
         resp_body resp =
           Json (Obj [(ustr ''error'', Str (ustr ''Missing required field: input'')),
                      (ustr ''requestId'', getRequestId ev)]))) \<and>
   (httpMethod ev = ustr ''POST'' \<and> OPENAI_API_KEY env = Some apiKey \<and> apiKey \<noteq> [] \<and>
    (body ev = None \<or> body ev = Some []) \<and> (isBase64Encoded ev \<longrightarrow> base64_decode P [] = []) \<and>
    JSON_parse P (ustr ''{}'') = Some (Obj []) \<longrightarrow>
      (\<exists>resp. handler triage P env ev = Inr (resp, []) \<and> statusCode resp = 400 \<and>
         resp_body resp =
           Json (Obj [(ustr ''error'', Str (ustr ''Missing required field: userMessage'')),
                      (ustr ''requestId'', getRequestId ev)])) \<and>
      (\<exists>resp. handler generatePlan P env ev = Inr (resp, []) \<and> statusCode resp = 400 \<and>
         resp_body resp =
           Json (Obj [(ustr ''error'', Str (ustr ''Missing required field: input'')),
                      (ustr ''requestId'', getRequestId ev)])))"
proof -
  have names: "ustr ''Missing required field: '' @ ustr (field_name triage) =
        ustr ''Missing required field: userMessage''"
      "ustr ''Missing required field: '' @ ustr (field_name generatePlan) =
        ustr ''Missing required field: input''"
    by (simp_all add: triage_def generatePlan_def ustr_def)
  have empty: "\<not> oversized ev \<and> json_source P ev = ustr ''{}''"
    if "body ev = None \<or> body ev = Some []" "isBase64Encoded ev \<longrightarrow> base64_decode P [] = []"
    using that by (auto simp: oversized_def json_source_def MAX_BODY_BYTES_def)
  have absent: "blank_field (designated_field ep (Obj []))" for ep
    by (simp add: blank_field_def designated_field_def)
  have seen: "\<exists>resp. Inr (error_response 400 msg rid, []) = Inr (resp, ([] :: provider_request list)) \<and>
      statusCode resp = 400 \<and>
      resp_body resp = Json (Obj [(ustr ''error'', Str msg), (ustr ''requestId'', rid)])"
    for msg rid
    by (simp add: error_response_fields)
  have t: "\<exists>resp. handler triage P env ev = Inr (resp, []) \<and> statusCode resp = 400 \<and>
         resp_body resp =
           Json (Obj [(ustr ''error'', Str (ustr ''Missing required field: userMessage'')),
                      (ustr ''requestId'', getRequestId ev)])"
    if "httpMethod ev = ustr ''POST''" "OPENAI_API_KEY env = Some apiKey" "apiKey \<noteq> []"
      "\<not> oversized ev" "JSON_parse P (json_source P ev) = Some p"
      "blank_field (designated_field triage p)" for p
    unfolding handler_400_missing [OF that] names by (rule seen)
  have g: "\<exists>resp. handler generatePlan P env ev = Inr (resp, []) \<and> statusCode resp = 400 \<and>
         resp_body resp =
           Json (Obj [(ustr ''error'', Str (ustr ''Missing required field: input'')),
                      (ustr ''requestId'', getRequestId ev)])"
    if "httpMethod ev = ustr ''POST''" "OPENAI_API_KEY env = Some apiKey" "apiKey \<noteq> []"
      "\<not> oversized ev" "JSON_parse P (json_source P ev) = Some p"
      "blank_field (designated_field generatePlan p)" for p
    unfolding handler_400_missing [OF that] names by (rule seen)
  show ?thesis
  proof (intro conjI impI)
    assume "httpMethod ev = ustr ''POST'' \<and> OPENAI_API_KEY env = Some apiKey \<and> apiKey \<noteq> [] \<and>
      \<not> oversized ev \<and> JSON_parse P (json_source P ev) = Some parsed \<and>
      blank_field (designated_field triage parsed)"
    then show "\<exists>resp. handler triage P env ev = Inr (resp, []) \<and> statusCode resp = 400 \<and>
         resp_body resp =
           Json (Obj [(ustr ''error'', Str (ustr ''Missing required field: userMessage'')),
                      (ustr ''requestId'', getRequestId ev)])"
      using t [of parsed] by blast
  next
    assume "httpMethod ev = ustr ''POST'' \<and> OPENAI_API_KEY env = Some apiKey \<and> apiKey \<noteq> [] \<and>
      \<not> oversized ev \<and> JSON_parse P (json_source P ev) = Some parsed \<and>
      blank_field (designated_field generatePlan parsed)"
    then show "\<exists>resp. handler generatePlan P env ev = Inr (resp, []) \<and> statusCode resp = 400 \<and>
         resp_body resp =
           Json (Obj [(ustr ''error'', Str (ustr ''Missing required field: input'')),
                      (ustr ''requestId'', getRequestId ev)])"
      using g [of parsed] by blast
  next
    assume a: "httpMethod ev = ustr ''POST'' \<and> OPENAI_API_KEY env = Some apiKey \<and> apiKey \<noteq> [] \<and>
      (body ev = None \<or> body ev = Some []) \<and> (isBase64Encoded ev \<longrightarrow> base64_decode P [] = []) \<and>
      JSON_parse P (ustr ''{}'') = Some (Obj [])"
    then have e: "\<not> oversized ev" "JSON_parse P (json_source P ev) = Some (Obj [])"
      using empty by auto
    show "\<exists>resp. handler triage P env ev = Inr (resp, []) \<and> statusCode resp = 400 \<and>
         resp_body resp =
           Json (Obj [(ustr ''error'', Str (ustr ''Missing required field: userMessage'')),
                      (ustr ''requestId'', getRequestId ev)])"
      using t [of "Obj []"] a e absent by blast
    show "\<exists>resp. handler generatePlan P env ev = Inr (resp, []) \<and> statusCode resp = 400 \<and>
         resp_body resp =
           Json (Obj [(ustr ''error'', Str (ustr ''Missing required field: input'')),
                      (ustr ''requestId'', getRequestId ev)])"
      using g [of "Obj []"] a e absent by blast
  qed
qed

theorem missing_text_field_rejected_witness:
  "(\<exists>resp. handler triage example_platform example_env (example_event\<lparr>body := Some blank_body\<rparr>) =
        Inr (resp, []) \<and> statusCode resp = 400 \<and>
      resp_body resp =
        Json (Obj [(ustr ''error'', Str (ustr ''Missing required field: userMessage'')),
                   (ustr ''requestId'', Str (ustr ''req-42''))])) \<and>
   (\<exists>resp. handler generatePlan example_platform example_env (example_event\<lparr>body := Some blank_body\<rparr>) =
        Inr (resp, []) \<and> statusCode resp = 400 \<and>
      resp_body resp =
        Json (Obj [(ustr ''error'', Str (ustr ''Missing required field: input'')),
                   (ustr ''requestId'', Str (ustr ''req-42''))])) \<and>
   (\<exists>resp. handler triage example_platform example_env (example_event\<lparr>body := None\<rparr>) =
        Inr (resp, []) \<and> statusCode resp = 400 \<and>
      resp_body resp =
        Json (Obj [(ustr ''error'', Str (ustr ''Missing required field: userMessage'')),
                   (ustr ''requestId'', Str (ustr ''req-42''))]))"
proof -
  have empty: "httpMethod (example_event\<lparr>body := None\<rparr>) = ustr ''POST''"
      "body (example_event\<lparr>body := None\<rparr>) = None"
      "\<not> isBase64Encoded (example_event\<lparr>body := None\<rparr>)"
      "JSON_parse example_platform (ustr ''{}'') = Some (Obj [])"
    by (simp_all add: example_event_def example_platform_def example_body_def example_output_def
        blank_body_def ustr_def)
  have ids: "getRequestId (example_event\<lparr>body := Some blank_body\<rparr>) = Str (ustr ''req-42'')"
      "getRequestId (example_event\<lparr>body := None\<rparr>) = Str (ustr ''req-42'')"
    by (simp_all add: getRequestId_def example_event_def js_or_def ustr_def)
  show ?thesis
    using missing_text_field_rejected
        [of "example_event\<lparr>body := Some blank_body\<rparr>" example_env "ustr ''sk-test''"
            example_platform blank_payload]
      missing_text_field_rejected
        [of "example_event\<lparr>body := None\<rparr>" example_env "ustr ''sk-test''"
            example_platform blank_payload]
      blank_event example_key empty
    unfolding ids by blast
qed


lemma after_provider_status:
  "statusCode (after_provider ep P env rid outcome) \<in> {200, 429, 502}"
proof -
  have caught: "statusCode (catch_response P env rid err) \<in> {200, 429, 502}" for err
    using toHttpError_status [of err]
    by (auto simp: catch_response_def Let_def jsonResponse_fields)
  show ?thesis
  proof (cases outcome)
    case (Threw err)
    then show ?thesis using caught [of err] by (simp add: after_provider_def)
  next
    case (Output val)
    show ?thesis
    proof (cases val)
      case (Str out)
      show ?thesis
      proof (cases "safeJsonParse P out")
        case None
        then show ?thesis using Output Str
          by (simp add: after_provider_def jsonResponse_fields)
      next
        case (Some v)
        show ?thesis
        proof (cases "validateShape (nextStepsPattern ep) v")
          case (Inl e)
          then show ?thesis using Output Str Some caught [of "thrown_value P e"]
            by (simp add: after_provider_def jsonResponse_fields)
        next
          case (Inr r)
          then show ?thesis using Output Str Some
            by (simp add: after_provider_def jsonResponse_fields)
        qed
      qed
    qed (use Output in \<open>simp_all add: after_provider_def jsonResponse_fields\<close>)
  qed
qed

lemma handler_status:
  "\<exists>resp calls. handler ep P env ev = Inr (resp, calls) \<and>
     statusCode resp \<in> {200, 204, 400, 405, 413, 429, 500, 502}"
proof (cases "httpMethod ev = ustr ''OPTIONS''")
  case True
  then show ?thesis by (simp add: handler_OPTIONS)
next
  case False
  note not_options = this
  show ?thesis
  proof (cases "httpMethod ev = ustr ''POST''")
    case False
    then show ?thesis using not_options by (simp add: handler_405 jsonResponse_fields)
  next
    case True
    note post = this
    show ?thesis
    proof (cases "OPENAI_API_KEY env = None \<or> OPENAI_API_KEY env = Some []")
      case True
      then show ?thesis using handler_500 [OF post] by (simp add: jsonResponse_fields)
    next
      case False
      then obtain apiKey where key: "OPENAI_API_KEY env = Some apiKey" "apiKey \<noteq> []"
        by (cases "OPENAI_API_KEY env") auto
      show ?thesis
        unfolding handler_checked [OF post key]
        using after_provider_status [of ep P env "getRequestId ev"]
        by (auto simp: jsonResponse_fields Let_def split: option.splits)
    qed
  qed
qed

lemma num_ge_500:
  "num_ge n (Finite 500) \<Longrightarrow> truthy (Num n) \<and> n \<noteq> Finite 401 \<and> n \<noteq> Finite 403 \<and> n \<noteq> Finite 429"
  by (cases n) auto

text \<open>
  Claim C7. The classification of provider failures is total and follows the table of
  the specification: \<open>toHttpError\<close> maps a numeric status 401 or 403 to the 502
  authentication failure, 429 to the 429 rate limit, any status of at least 500 to the
  502 provider error, and every other error, also one without a numeric status, to the
  generic 502 failure. A value thrown by the provider stage is turned into the JSON
  error envelope: the status of the response is the status of the classification and
  its body is the object with the message of the classification and the \<open>requestId\<close>
  (and, in debug mode, the \<open>details\<close>). No exception leaves the handler: for every
  request it returns a response, whose status is one of 200, 204, 400, 405, 413, 429,
  500 and 502.
\<close>

theorem provider_failures_classified:
  "(opt_get err (ustr ''status'') = Num (Finite 401) \<or>
    opt_get err (ustr ''status'') = Num (Finite 403) \<longrightarrow>
      toHttpError err =
        \<lparr>err_statusCode = 502, err_message = ustr ''LLM authentication failed.''\<rparr>) \<and>
   (opt_get err (ustr ''status'') = Num (Finite 429) \<longrightarrow>
      toHttpError err =
        \<lparr>err_statusCode = 429,
         err_message = ustr ''Rate limited by LLM provider. Try again shortly.''\<rparr>) \<and>
   (opt_get err (ustr ''status'') = Num n \<and> num_ge n (Finite 500) \<longrightarrow>
      toHttpError err =
        \<lparr>err_statusCode = 502, err_message = ustr ''LLM provider error. Try again shortly.''\<rparr>) \<and>
   ((\<forall>m. opt_get err (ustr ''status'') = Num m \<longrightarrow>
        m \<noteq> Finite 401 \<and> m \<noteq> Finite 403 \<and> m \<noteq> Finite 429 \<and> \<not> num_ge m (Finite 500)) \<longrightarrow>
      toHttpError err =
        \<lparr>err_statusCode = 502, err_message = ustr ''LLM request failed.''\<rparr>) \<and>
   (reaches_provider ep P env ev apiKey t \<and>
    responses_create P (build_request ep env apiKey t) = Threw err \<longrightarrow>
      (\<exists>resp. handler ep P env ev = Inr (resp, [build_request ep env apiKey t]) \<and>
         statusCode resp = err_statusCode (toHttpError err) \<and>
         resp_body resp =
           Json (Obj ([(ustr ''error'', Str (err_message (toHttpError err))),
                       (ustr ''requestId'', getRequestId ev)] @
                      (if DEBUG_ERRORS env
                       then [(ustr ''details'',
                              js_or (opt_get err (ustr ''message'')) (Str (to_String P err)))]
                       else []))))) \<and>
   (\<exists>resp calls. handler ep P env ev = Inr (resp, calls) \<and>
      statusCode resp \<in> {200, 204, 400, 405, 413, 429, 500, 502})"
proof (intro conjI impI)
  assume "opt_get err (ustr ''status'') = Num (Finite 401) \<or>
    opt_get err (ustr ''status'') = Num (Finite 403)"
  then show "toHttpError err =
        \<lparr>err_statusCode = 502, err_message = ustr ''LLM authentication failed.''\<rparr>"
    by (auto simp: toHttpError_def)
next
  assume "opt_get err (ustr ''status'') = Num (Finite 429)"
  then show "toHttpError err =
        \<lparr>err_statusCode = 429,
         err_message = ustr ''Rate limited by LLM provider. Try again shortly.''\<rparr>"
    by (simp add: toHttpError_def)
next
  assume "opt_get err (ustr ''status'') = Num n \<and> num_ge n (Finite 500)"
  then show "toHttpError err =
        \<lparr>err_statusCode = 502, err_message = ustr ''LLM provider error. Try again shortly.''\<rparr>"
    using num_ge_500 [of n] by (simp add: toHttpError_def)
next
  assume other: "\<forall>m. opt_get err (ustr ''status'') = Num m \<longrightarrow>
        m \<noteq> Finite 401 \<and> m \<noteq> Finite 403 \<and> m \<noteq> Finite 429 \<and> \<not> num_ge m (Finite 500)"
  show "toHttpError err = \<lparr>err_statusCode = 502, err_message = ustr ''LLM request failed.''\<rparr>"
  proof (cases "opt_get err (ustr ''status'')")
    case (Num m)
    then show ?thesis using other by (simp add: toHttpError_def)
  qed (simp_all add: toHttpError_def)
next
  assume "reaches_provider ep P env ev apiKey t \<and>
    responses_create P (build_request ep env apiKey t) = Threw err"
  then have "handler ep P env ev =
      Inr (catch_response P env (getRequestId ev) err, [build_request ep env apiKey t])"
    using handler_provider [of ep P env ev apiKey t] by (simp add: after_provider_def)
  then show "\<exists>resp. handler ep P env ev = Inr (resp, [build_request ep env apiKey t]) \<and>
         statusCode resp = err_statusCode (toHttpError err) \<and>
         resp_body resp =
           Json (Obj ([(ustr ''error'', Str (err_message (toHttpError err))),
                       (ustr ''requestId'', getRequestId ev)] @
                      (if DEBUG_ERRORS env
                       then [(ustr ''details'',
                              js_or (opt_get err (ustr ''message'')) (Str (to_String P err)))]
                       else [])))"
    by (simp add: catch_response_def Let_def jsonResponse_fields)
next
  show "\<exists>resp calls. handler ep P env ev = Inr (resp, calls) \<and>
      statusCode resp \<in> {200, 204, 400, 405, 413, 429, 500, 502}"
    by (rule handler_status)
qed

lemma reaches_provider_cong:
  assumes "JSON_parse P' = JSON_parse P" "base64_decode P' = base64_decode P"
  shows "reaches_provider ep P' env ev apiKey t = reaches_provider ep P env ev apiKey t"
proof -
  have "json_source P' ev = json_source P ev"
    unfolding json_source_def assms(2) ..
  then show ?thesis
    unfolding reaches_provider_def assms(1) by simp
qed

lemma example_reaches_failing_provider:
  "reaches_provider triage failing_platform example_env example_event (ustr ''sk-test'') example_text"
  using example_reaches_provider(1)
    reaches_provider_cong [of failing_platform example_platform triage example_env example_event]
  by (simp add: failing_platform_def)

theorem provider_failures_classified_witness:
  "toHttpError (Obj [(ustr ''status'', Num (Finite 401))]) =
     \<lparr>err_statusCode = 502, err_message = ustr ''LLM authentication failed.''\<rparr> \<and>
   toHttpError rate_limit_error =
     \<lparr>err_statusCode = 429,
      err_message = ustr ''Rate limited by LLM provider. Try again shortly.''\<rparr> \<and>
   toHttpError (Obj [(ustr ''status'', Num (Finite 503))]) =
     \<lparr>err_statusCode = 502, err_message = ustr ''LLM provider error. Try again shortly.''\<rparr> \<and>
   toHttpError (Str (ustr ''socket hang up'')) =
     \<lparr>err_statusCode = 502, err_message = ustr ''LLM request failed.''\<rparr> \<and>
   (\<exists>resp. handler triage failing_platform example_env example_event =
        Inr (resp, [build_request triage example_env (ustr ''sk-test'') example_text]) \<and>
      statusCode resp = 429 \<and>
      resp_body resp =
        Json (Obj [(ustr ''error'', Str (ustr ''Rate limited by LLM provider. Try again shortly.'')),
                   (ustr ''requestId'', Str (ustr ''req-42''))]))"
proof -
  have s401: "opt_get (Obj [(ustr ''status'', Num (Finite 401))]) (ustr ''status'') = Num (Finite 401)"
    and s429: "opt_get rate_limit_error (ustr ''status'') = Num (Finite 429)"
    and s503: "opt_get (Obj [(ustr ''status'', Num (Finite 503))]) (ustr ''status'') = Num (Finite 503)"
      "num_ge (Finite 503) (Finite 500)"
    and none: "\<forall>m. opt_get (Str (ustr ''socket hang up'')) (ustr ''status'') = Num m \<longrightarrow>
        m \<noteq> Finite 401 \<and> m \<noteq> Finite 403 \<and> m \<noteq> Finite 429 \<and> \<not> num_ge m (Finite 500)"
    by (simp_all add: rate_limit_error_def)
  have threw: "responses_create failing_platform
      (build_request triage example_env (ustr ''sk-test'') example_text) = Threw rate_limit_error"
    by (simp add: failing_platform_def)
  have quiet: "\<not> DEBUG_ERRORS example_env" by (simp add: example_env_def)
  have a: "toHttpError (Obj [(ustr ''status'', Num (Finite 401))]) =
     \<lparr>err_statusCode = 502, err_message = ustr ''LLM authentication failed.''\<rparr>"
    using provider_failures_classified [of "Obj [(ustr ''status'', Num (Finite 401))]"] s401 by blast
  have b: "toHttpError rate_limit_error =
     \<lparr>err_statusCode = 429,
      err_message = ustr ''Rate limited by LLM provider. Try again shortly.''\<rparr>"
    using provider_failures_classified [of rate_limit_error] s429 by blast
  have c: "toHttpError (Obj [(ustr ''status'', Num (Finite 503))]) =
     \<lparr>err_statusCode = 502, err_message = ustr ''LLM provider error. Try again shortly.''\<rparr>"
    using provider_failures_classified [of "Obj [(ustr ''status'', Num (Finite 503))]" "Finite 503"]
      s503 by blast
  have d: "toHttpError (Str (ustr ''socket hang up'')) =
     \<lparr>err_statusCode = 502, err_message = ustr ''LLM request failed.''\<rparr>"
    using provider_failures_classified [of "Str (ustr ''socket hang up'')"] none by blast
  have "\<exists>resp. handler triage failing_platform example_env example_event =
        Inr (resp, [build_request triage example_env (ustr ''sk-test'') example_text]) \<and>
      statusCode resp = err_statusCode (toHttpError rate_limit_error) \<and>
      resp_body resp =
        Json (Obj ([(ustr ''error'', Str (err_message (toHttpError rate_limit_error))),
                    (ustr ''requestId'', getRequestId example_event)] @
                   (if DEBUG_ERRORS example_env
                    then [(ustr ''details'',
                           js_or (opt_get rate_limit_error (ustr ''message''))
                             (Str (to_String failing_platform rate_limit_error)))]
                    else [])))"
    using provider_failures_classified
      [of rate_limit_error "Finite 429" triage failing_platform example_env example_event
          "ustr ''sk-test''" example_text]
      example_reaches_failing_provider threw
    by blast
  then have e: "\<exists>resp. handler triage failing_platform example_env example_event =
        Inr (resp, [build_request triage example_env (ustr ''sk-test'') example_text]) \<and>
      statusCode resp = 429 \<and>
      resp_body resp =
        Json (Obj [(ustr ''error'', Str (ustr ''Rate limited by LLM provider. Try again shortly.'')),
                   (ustr ''requestId'', Str (ustr ''req-42''))])"
    using b quiet getRequestId_example by simp
  show ?thesis using a b c d e by blast
qed


lemma no_debug_fields:
  assumes "\<not> DEBUG_ERRORS env" "handler ep P env ev = Inr (resp, calls)"
  shows "body_field resp ''details'' = None \<and> body_field resp ''model_output'' = None"
proof (cases "httpMethod ev = ustr ''OPTIONS''")
  case True
  then show ?thesis using assms(2) by (auto simp: handler_OPTIONS body_field_def)
next
  case False
  note not_options = this
  show ?thesis
  proof (cases "httpMethod ev = ustr ''POST''")
    case False
    then show ?thesis
      using assms(2) not_options by (auto simp: handler_405_plain body_field_plain_error)
  next
    case True
    note post = this
    show ?thesis
    proof (cases "OPENAI_API_KEY env = None \<or> OPENAI_API_KEY env = Some []")
      case True
      then show ?thesis
        using assms(2) handler_500_plain [OF post, of env ep P]
        by (auto simp: body_field_plain_error)
    next
      case False
      then obtain apiKey where key: "OPENAI_API_KEY env = Some apiKey" "apiKey \<noteq> []"
        by (cases "OPENAI_API_KEY env") auto
      from handler_cases [OF post key, of ep P] assms consider
          (accepted) v where "validateShape (nextStepsPattern ep) v = Inr Null" "resp = jsonResponse 200 v"
        | (rejected) code msg where
            "resp = jsonResponse code
                 (Obj [(ustr ''error'', Str msg), (ustr ''requestId'', getRequestId ev)])"
        by auto
      then show ?thesis
      proof cases
        case accepted
        then show ?thesis
          using body_field_accepted [OF accepted(1) not_result_keys(2), of 200]
            body_field_accepted [OF accepted(1) not_result_keys(3), of 200]
          by simp
      next
        case rejected
        then show ?thesis
          using body_field_error_response(3,4) [of code msg "getRequestId ev"]
          by (simp add: error_response_def)
      qed
    qed
  qed
qed

text \<open>
  Claim C8. The debug fields are emitted under the operator flag only: when
  \<open>DEBUG_ERRORS\<close> is off, no response body has a \<open>details\<close> or a \<open>model_output\<close> field.
  When it is on, the non-JSON-output error and the invalid-shape error are responses of
  status 502 whose body has, after the message and the \<open>requestId\<close> (and the
  \<open>details\<close> of the shape error), the \<open>model_output\<close> field: the first 2000 characters
  of the model's text, so at most 2000 characters.
\<close>

theorem debug_fields_only_in_debug_mode:
  "(\<not> DEBUG_ERRORS env \<and> handler ep P env ev = Inr (resp, calls) \<longrightarrow>
      body_field resp ''details'' = None \<and> body_field resp ''model_output'' = None) \<and>
   (DEBUG_ERRORS env \<and> reaches_provider ep P env ev apiKey t \<and>
    responses_create P (build_request ep env apiKey t) = Output (Str out) \<and> out \<noteq> [] \<and>
    JSON_parse P out = None \<longrightarrow>
      (\<exists>r shown. handler ep P env ev = Inr (r, [build_request ep env apiKey t]) \<and>
         statusCode r = 502 \<and>
         resp_body r =
           Json (Obj [(ustr ''error'', Str (ustr ''Model returned non-JSON output.'')),
                      (ustr ''requestId'', getRequestId ev),
                      (ustr ''model_output'', Str shown)]) \<and>
         shown = take 2000 out \<and> length shown \<le> 2000)) \<and>
   (DEBUG_ERRORS env \<and> reaches_provider ep P env ev apiKey t \<and>
    responses_create P (build_request ep env apiKey t) = Output (Str out) \<and> out \<noteq> [] \<and>
    JSON_parse P out = Some v \<and> validateShape (nextStepsPattern ep) v = Inr shapeError \<and>
    shapeError \<noteq> Null \<longrightarrow>
      (\<exists>r shown. handler ep P env ev = Inr (r, [build_request ep env apiKey t]) \<and>
         statusCode r = 502 \<and>
         resp_body r =
           Json (Obj [(ustr ''error'', Str (ustr ''Model returned an invalid response shape.'')),
                      (ustr ''requestId'', getRequestId ev),
                      (ustr ''details'', shapeError),
                      (ustr ''model_output'', Str shown)]) \<and>
         shown = take 2000 out \<and> length shown \<le> 2000))"
proof (intro conjI impI)
  assume "\<not> DEBUG_ERRORS env \<and> handler ep P env ev = Inr (resp, calls)"
  then have both: "body_field resp ''details'' = None \<and> body_field resp ''model_output'' = None"
    using no_debug_fields by blast
  from both show "body_field resp ''details'' = None" by blast
  from both show "body_field resp ''model_output'' = None" by blast
next
  assume "DEBUG_ERRORS env \<and> reaches_provider ep P env ev apiKey t \<and>
    responses_create P (build_request ep env apiKey t) = Output (Str out) \<and> out \<noteq> [] \<and>
    JSON_parse P out = None"
  then have "handler ep P env ev =
        Inr (jsonResponse 502
               (Obj [(ustr ''error'', Str (ustr ''Model returned non-JSON output.'')),
                     (ustr ''requestId'', getRequestId ev),
                     (ustr ''model_output'', Str (take 2000 out))]),
             [build_request ep env apiKey t])"
    using handler_provider [of ep P env ev apiKey t]
    by (simp add: after_provider_def safeJsonParse_def)
  then show "\<exists>r shown. handler ep P env ev = Inr (r, [build_request ep env apiKey t]) \<and>
         statusCode r = 502 \<and>
         resp_body r =
           Json (Obj [(ustr ''error'', Str (ustr ''Model returned non-JSON output.'')),
                      (ustr ''requestId'', getRequestId ev),
                      (ustr ''model_output'', Str shown)]) \<and>
         shown = take 2000 out \<and> length shown \<le> 2000"
    by (simp add: jsonResponse_fields)
next
  assume a: "DEBUG_ERRORS env \<and> reaches_provider ep P env ev apiKey t \<and>
    responses_create P (build_request ep env apiKey t) = Output (Str out) \<and> out \<noteq> [] \<and>
    JSON_parse P out = Some v \<and> validateShape (nextStepsPattern ep) v = Inr shapeError \<and>
    shapeError \<noteq> Null"
  then have "verdict shapeError"
    using validateShape_verdict [of "nextStepsPattern ep" v] by auto
  then have "truthy shapeError" using a by (auto simp: verdict_def)
  then have "handler ep P env ev =
        Inr (jsonResponse 502
               (Obj [(ustr ''error'', Str (ustr ''Model returned an invalid response shape.'')),
                     (ustr ''requestId'', getRequestId ev),
                     (ustr ''details'', shapeError),
                     (ustr ''model_output'', Str (take 2000 out))]),
             [build_request ep env apiKey t])"
    using a handler_provider [of ep P env ev apiKey t]
    by (simp add: after_provider_def safeJsonParse_def)
  then show "\<exists>r shown. handler ep P env ev = Inr (r, [build_request ep env apiKey t]) \<and>
         statusCode r = 502 \<and>
         resp_body r =
           Json (Obj [(ustr ''error'', Str (ustr ''Model returned an invalid response shape.'')),
                      (ustr ''requestId'', getRequestId ev),
                      (ustr ''details'', shapeError),
                      (ustr ''model_output'', Str shown)]) \<and>
         shown = take 2000 out \<and> length shown \<le> 2000"
    by (simp add: jsonResponse_fields)
qed


lemma example_reaches_chatty_provider:
  "reaches_provider triage chatty_platform env example_event apiKey t =
   reaches_provider triage example_platform env example_event apiKey t"
  by (rule reaches_provider_cong) (simp_all add: chatty_platform_def)

lemma chat_output_facts:
  "chat_output \<noteq> []" "JSON_parse chatty_platform chat_output = None"
  "take 2000 chat_output = chat_output"
  by (simp_all add: chat_output_def chatty_platform_def example_platform_def example_body_def
      example_output_def blank_body_def ustr_def)

theorem debug_fields_only_in_debug_mode_witness:
  "(\<exists>resp. handler triage example_platform example_env (example_event\<lparr>body := Some blank_body\<rparr>) =
        Inr (resp, []) \<and>
      body_field resp ''details'' = None \<and> body_field resp ''model_output'' = None) \<and>
   (\<exists>resp calls. handler triage chatty_platform example_env example_event = Inr (resp, calls) \<and>
      body_field resp ''details'' = None \<and> body_field resp ''model_output'' = None) \<and>
   (\<exists>r. handler triage chatty_platform debug_env example_event =
        Inr (r, [build_request triage debug_env (ustr ''sk-test'') example_text]) \<and>
      statusCode r = 502 \<and>
      resp_body r =
        Json (Obj [(ustr ''error'', Str (ustr ''Model returned non-JSON output.'')),
                   (ustr ''requestId'', Str (ustr ''req-42'')),
                   (ustr ''model_output'', Str chat_output)]))"
proof -
  let ?ev = "example_event\<lparr>body := Some blank_body\<rparr>"
  let ?resp = "error_response 400 (ustr ''Missing required field: '' @ ustr (field_name triage))
            (getRequestId ?ev)"
  have h: "handler triage example_platform example_env ?ev = Inr (?resp, [])"
    using handler_400_missing [OF blank_event(1) example_key blank_event(2,3,4)] .
  have quiet: "\<not> DEBUG_ERRORS example_env" by (simp add: example_env_def)
  have "body_field ?resp ''details'' = None \<and> body_field ?resp ''model_output'' = None"
    using debug_fields_only_in_debug_mode
      [of example_env triage example_platform ?ev ?resp "[]"] h quiet
    by blast
  then have first: "\<exists>resp. handler triage example_platform example_env ?ev = Inr (resp, []) \<and>
      body_field resp ''details'' = None \<and> body_field resp ''model_output'' = None"
    using h by simp
  obtain resp calls where
    hushed: "handler triage chatty_platform example_env example_event = Inr (resp, calls)"
    using handler_status [of triage chatty_platform example_env example_event] by blast
  have "body_field resp ''details'' = None \<and> body_field resp ''model_output'' = None"
    using debug_fields_only_in_debug_mode
      [of example_env triage chatty_platform example_event resp calls] hushed quiet
    by blast
  then have second: "\<exists>resp calls.
      handler triage chatty_platform example_env example_event = Inr (resp, calls) \<and>
      body_field resp ''details'' = None \<and> body_field resp ''model_output'' = None"
    using hushed by blast
  have debug: "DEBUG_ERRORS debug_env" by (simp add: debug_env_def)
  have "reaches_provider triage example_platform debug_env example_event (ustr ''sk-test'') example_text"
    using example_reaches_provider(1)
    by (simp add: reaches_provider_def debug_env_def example_env_def)
  then have reach: "reaches_provider triage chatty_platform debug_env example_event
      (ustr ''sk-test'') example_text"
    by (simp add: example_reaches_chatty_provider)
  have out: "responses_create chatty_platform
      (build_request triage debug_env (ustr ''sk-test'') example_text) = Output (Str chat_output)"
    by (simp add: chatty_platform_def)
  have "\<exists>r shown. handler triage chatty_platform debug_env example_event =
          Inr (r, [build_request triage debug_env (ustr ''sk-test'') example_text]) \<and>
        statusCode r = 502 \<and>
        resp_body r =
          Json (Obj [(ustr ''error'', Str (ustr ''Model returned non-JSON output.'')),
                     (ustr ''requestId'', getRequestId example_event),
                     (ustr ''model_output'', Str shown)]) \<and>
        shown = take 2000 chat_output \<and> length shown \<le> 2000"
    using debug_fields_only_in_debug_mode
      [of debug_env triage chatty_platform example_event _ _ "ustr ''sk-test''" example_text
          chat_output]
      debug reach out chat_output_facts(1,2)
    by blast
  then have third: "\<exists>r. handler triage chatty_platform debug_env example_event =
        Inr (r, [build_request triage debug_env (ustr ''sk-test'') example_text]) \<and>
      statusCode r = 502 \<and>
      resp_body r =
        Json (Obj [(ustr ''error'', Str (ustr ''Model returned non-JSON output.'')),
                   (ustr ''requestId'', Str (ustr ''req-42'')),
                   (ustr ''model_output'', Str chat_output)])"
    by (auto simp: chat_output_facts(3) getRequestId_example)
  show ?thesis using first second third by blast
qed

end
